theory Spec2Isabelle
  imports Complex_Main
begin

section \<open>Data model\<close>

text \<open>
  A shallow embedding of \<^verbatim>\<open>src/atrament.js\<close> and \<^verbatim>\<open>src/pointer.js\<close>.
  JavaScript numbers are idealised as \<^typ>\<open>real\<close> (no rounding, no NaN except where a
  recorded time stamp is computed from an unset stroke timestamp, which is \<open>None\<close>);
  pixel coordinates after \<^verbatim>\<open>Math.floor\<close> are \<^typ>\<open>int\<close>.
  Fields whose JavaScript name starts with an underscore carry the prefix \<open>p_\<close>.
\<close>

subsection \<open>pointer.js\<close>

record Point =
  point_x :: real
  point_y :: real

text \<open>\<^verbatim>\<open>Point.set(x, y)\<close>; it is inherited by \<^verbatim>\<open>Pointer\<close>.\<close>

definition point_set :: "real \<Rightarrow> real \<Rightarrow> 'a Point_scheme \<Rightarrow> 'a Point_scheme" where
  "point_set x y p = p\<lparr>point_x := x, point_y := y\<rparr>"

record Pointer = Point +
  down :: bool
  previous :: Point

definition new_Point :: "real \<Rightarrow> real \<Rightarrow> Point" where
  "new_Point x y = \<lparr>point_x = x, point_y = y\<rparr>"

definition new_Pointer :: Pointer where
  "new_Pointer = \<lparr>point_x = 0, point_y = 0, down = False, previous = new_Point 0 0\<rparr>"

subsection \<open>Collaborators that are not among the sources\<close>

text \<open>
  \<^verbatim>\<open>constants.js\<close> is not among the sources: its values are taken as a parameter.
\<close>

record constants =
  floodFillInterval :: real
  initialSmoothingFactor :: real
  minSmoothingFactor :: real
  initialThickness :: real
  weightSpread :: real
  minLineThickness :: real
  lineThicknessRange :: real
  thicknessIncrement :: real

type_synonym rgb = "nat \<times> nat \<times> nat"
type_synonym rgba = "nat \<times> nat \<times> nat \<times> nat"

text \<open>
  \<^verbatim>\<open>ImageData.data\<close> is a flat byte array, four bytes per pixel, row-major. The model
  keeps one list entry per pixel; the pixel at byte offset \<open>pos\<close> is entry \<open>pos div 4\<close>.
  Every offset the program computes is a multiple of four.
\<close>

type_synonym image_data = "rgba list"

definition pixel_at :: "image_data \<Rightarrow> int \<Rightarrow> rgba option" where
  "pixel_at data pos =
     (if 0 \<le> pos \<and> pos div 4 < int (length data) then Some (data ! nat (pos div 4)) else None)"

text \<open>
  The primitives of \<^verbatim>\<open>pixels.js\<close>, which is not among the sources, are parameters:
  the tolerance relation of the colour matcher, the blend written by the colouring
  primitive and the parser of the colour string.
\<close>

record pixels_js =
  near :: "rgba \<Rightarrow> rgba \<Rightarrow> bool"
  blend :: "rgb \<Rightarrow> rgba \<Rightarrow> real \<Rightarrow> rgba \<Rightarrow> rgba"
  hexToRgb :: "string \<Rightarrow> rgb"

text \<open>
  Modelled from the spec: \<^verbatim>\<open>Pixels.lineDistance\<close> of the missing \<^verbatim>\<open>pixels.js\<close>,
  the Euclidean distance between two points.
\<close>

definition lineDistance :: "real \<Rightarrow> real \<Rightarrow> real \<Rightarrow> real \<Rightarrow> real" where
  "lineDistance x1 y1 x2 y2 = sqrt ((x2 - x1)\<^sup>2 + (y2 - y1)\<^sup>2)"

text \<open>
  Modelled from the spec: \<^verbatim>\<open>Pixels.matchColor(data, r, g, b, a)\<close> of the missing
  \<^verbatim>\<open>pixels.js\<close>, true if the pixel at the offset equals the reference colour within
  the tolerance. A read outside the array yields no pixel and does not match.
\<close>

definition matchColor :: "pixels_js \<Rightarrow> image_data \<Rightarrow> rgba \<Rightarrow> int \<Rightarrow> bool" where
  "matchColor px data cmp pos =
     (case pixel_at data pos of None \<Rightarrow> False | Some c \<Rightarrow> near px c cmp)"

text \<open>
  Modelled from the spec: \<^verbatim>\<open>Pixels.colorPixel(data, r, g, b, startColor, alpha)\<close> of
  the missing \<^verbatim>\<open>pixels.js\<close>, which writes a blended colour at the given offset.
  A write outside the array is dropped, as a typed array does.
\<close>

definition colorPixel :: "pixels_js \<Rightarrow> image_data \<Rightarrow> rgb \<Rightarrow> rgba \<Rightarrow> real \<Rightarrow> int \<Rightarrow> image_data" where
  "colorPixel px data fillColor startColor alpha pos =
     (case pixel_at data pos of
        None \<Rightarrow> data
      | Some c \<Rightarrow> data[nat (pos div 4) := blend px fillColor startColor alpha c])"

subsection \<open>The raster surface\<close>

text \<open>
  The 2D context: its ambient drawing state, the canvas size, the pixel buffer and a log
  of the path and pixel commands issued to it. Rasterising a stroked path is the
  surface's business; the model logs the command.
\<close>

datatype canvas_op =
    BeginPath
  | MoveTo real real
  | QuadraticCurveTo real real real real
  | Stroke
  | ClosePath
  | ClearRect real real real real
  | PutImageData

record context2d =
  globalCompositeOperation :: string
  globalAlpha :: real
  strokeStyle :: string
  lineWidth :: real
  lineCap :: string
  lineJoin :: string
  canvas_width :: int
  canvas_height :: int
  pixels :: image_data
  ops :: "canvas_op list"

subsection \<open>atrament.js: state\<close>

record stroke_point =
  point :: Point
  time :: "real option"

record recorded_stroke =
  points :: "stroke_point list"
  stroke_mode :: string
  stroke_weight :: real
  stroke_smoothing :: real
  stroke_color :: string
  stroke_adaptiveStroke :: bool

text \<open>\<^verbatim>\<open>dispatchEvent\<close> of the missing \<^verbatim>\<open>events.js\<close> is a log of the events sent.\<close>

datatype event =
    StrokeStart real real
  | StrokeEnd real real
  | StrokeRecorded recorded_stroke
  | FillStart real real
  | FillEnd
  | Dirty
  | Clean
  | ColorPicked string

record atrament =
  pointer :: Pointer
  ctx :: context2d
  p_filling :: bool
  p_fillStack :: "(real \<times> real \<times> rgba) list"
  recordStrokes :: bool
  strokeMemory :: "stroke_point list"
  strokeTimestamp :: "real option"
  smoothing :: real
  p_thickness :: real
  p_targetThickness :: real
  p_weight :: real
  p_maxWeight :: real
  p_mode :: string
  adaptiveStroke :: bool
  p_dirty :: bool
  events :: "event list"
  timers :: "rgba list"

text \<open>
  \<open>timers\<close> holds the callbacks scheduled by \<^verbatim>\<open>setTimeout\<close> and not yet run, oldest
  first; all have the same delay. The callback of \<^verbatim>\<open>fill\<close> closes over the pointer
  object and the sampled start colour, so an entry is the start colour.
\<close>

definition DrawingMode_DRAW :: string where "DrawingMode_DRAW = ''draw''"
definition DrawingMode_ERASE :: string where "DrawingMode_ERASE = ''erase''"
definition DrawingMode_FILL :: string where "DrawingMode_FILL = ''fill''"
definition DrawingMode_DISABLED :: string where "DrawingMode_DISABLED = ''disabled''"
definition DrawingMode_PICKER :: string where "DrawingMode_PICKER = ''picker''"

definition PathDrawingModes :: "string list" where
  "PathDrawingModes = [DrawingMode_DRAW, DrawingMode_ERASE]"

definition dispatchEvent :: "event \<Rightarrow> atrament \<Rightarrow> atrament" where
  "dispatchEvent e st = st\<lparr>events := events st @ [e]\<rparr>"

definition ctx_op :: "canvas_op \<Rightarrow> atrament \<Rightarrow> atrament" where
  "ctx_op c st = st\<lparr>ctx := (ctx st)\<lparr>ops := ops (ctx st) @ [c]\<rparr>\<rparr>"

text \<open>
  The state the constructor leaves for an empty configuration object, on a canvas of the
  given size and content.
\<close>

definition new_atrament :: "constants \<Rightarrow> int \<Rightarrow> int \<Rightarrow> image_data \<Rightarrow> atrament" where
  "new_atrament c w h img =
     \<lparr>pointer = new_Pointer,
      ctx = \<lparr>globalCompositeOperation = ''source-over'', globalAlpha = 1,
             strokeStyle = ''rgba(0,0,0,1)'', lineWidth = 1, lineCap = ''round'',
             lineJoin = ''round'', canvas_width = w, canvas_height = h, pixels = img,
             ops = []\<rparr>,
      p_filling = False, p_fillStack = [],
      recordStrokes = False, strokeMemory = [], strokeTimestamp = None,
      smoothing = initialSmoothingFactor c,
      p_thickness = initialThickness c,
      p_targetThickness = initialThickness c,
      p_weight = initialThickness c,
      p_maxWeight = initialThickness c + weightSpread c,
      p_mode = DrawingMode_DRAW, adaptiveStroke = True, p_dirty = False,
      events = [], timers = []\<rparr>"

text \<open>The getters \<^verbatim>\<open>color\<close>, \<^verbatim>\<open>weight\<close> and \<^verbatim>\<open>mode\<close>.\<close>

definition color :: "atrament \<Rightarrow> string" where
  "color st = strokeStyle (ctx st)"

definition weight :: "atrament \<Rightarrow> real" where
  "weight st = p_weight st"

definition mode :: "atrament \<Rightarrow> string" where
  "mode st = p_mode st"

section \<open>Stroke renderer\<close>

text \<open>
  A reading of \<^verbatim>\<open>performance.now()\<close> is an argument of the operation that takes it.
  \<open>record_sample\<close> is the push onto \<^verbatim>\<open>strokeMemory\<close> shared by the three stroke
  operations; the elapsed time is undefined (\<open>None\<close>) when no stroke timestamp is set.
\<close>

definition record_sample :: "real \<Rightarrow> real \<Rightarrow> real \<Rightarrow> atrament \<Rightarrow> atrament" where
  "record_sample x y now st =
     st\<lparr>strokeMemory := strokeMemory st @
          [\<lparr>point = new_Point x y, time = map_option (\<lambda>t0. now - t0) (strokeTimestamp st)\<rparr>]\<rparr>"

definition beginStroke :: "real \<Rightarrow> real \<Rightarrow> real \<Rightarrow> real \<Rightarrow> atrament \<Rightarrow> atrament" where
  "beginStroke x y now0 now1 st =
     (let st1 = ctx_op (MoveTo x y) (ctx_op BeginPath st);
          st2 = (if recordStrokes st1
                 then record_sample x y now1 (st1\<lparr>strokeTimestamp := Some now0\<rparr>)
                 else st1)
      in dispatchEvent (StrokeStart x y) st2)"

definition endStroke :: "real \<Rightarrow> real \<Rightarrow> real \<Rightarrow> atrament \<Rightarrow> atrament" where
  "endStroke x y now st =
     (let st1 = ctx_op ClosePath st;
          st2 = (if recordStrokes st1 then record_sample x y now st1 else st1);
          st3 = dispatchEvent (StrokeEnd x y) st2;
          st4 = (if recordStrokes st3
                 then dispatchEvent
                        (StrokeRecorded
                           \<lparr>points = strokeMemory st3, stroke_mode = mode st3,
                            stroke_weight = weight st3, stroke_smoothing = smoothing st3,
                            stroke_color = color st3,
                            stroke_adaptiveStroke = adaptiveStroke st3\<rparr>) st3
                 else st3)
      in st4\<lparr>strokeMemory := [], strokeTimestamp := None\<rparr>)"

text \<open>The local \<^verbatim>\<open>smoothingFactor\<close> of \<^verbatim>\<open>draw\<close>.\<close>

definition smoothingFactor :: "constants \<Rightarrow> atrament \<Rightarrow> real \<Rightarrow> real \<Rightarrow> real \<Rightarrow> real \<Rightarrow> real" where
  "smoothingFactor c st x y prevX prevY =
     min (minSmoothingFactor c) (smoothing st + (lineDistance x y prevX prevY - 60) / 3000)"

text \<open>The adaptive branch of \<^verbatim>\<open>draw\<close>: the new target and the step towards it.\<close>

definition approach :: "constants \<Rightarrow> real \<Rightarrow> atrament \<Rightarrow> atrament" where
  "approach c sdist st =
     (let st1 = st\<lparr>p_targetThickness :=
                   (sdist - minLineThickness c) / lineThicknessRange c
                     * (p_maxWeight st - p_weight st) + p_weight st\<rparr>;
          st2 = (if p_thickness st1 > p_targetThickness st1
                 then st1\<lparr>p_thickness := p_thickness st1 - thicknessIncrement c\<rparr>
                 else if p_thickness st1 < p_targetThickness st1
                 then st1\<lparr>p_thickness := p_thickness st1 + thicknessIncrement c\<rparr>
                 else st1)
      in st2\<lparr>ctx := (ctx st2)\<lparr>lineWidth := p_thickness st2\<rparr>\<rparr>)"

definition draw :: "constants \<Rightarrow> real \<Rightarrow> real \<Rightarrow> real \<Rightarrow> real \<Rightarrow> real \<Rightarrow> atrament \<Rightarrow> Point \<times> atrament" where
  "draw c x y prevX prevY now st =
     (let st1 = (if recordStrokes st then record_sample x y now st else st);
          factor = smoothingFactor c st1 x y prevX prevY;
          procX = x - (x - prevX) * factor;
          procY = y - (y - prevY) * factor;
          sdist = lineDistance procX procY prevX prevY;
          st2 = (if adaptiveStroke st1 then approach c sdist st1
                 else st1\<lparr>ctx := (ctx st1)\<lparr>lineWidth := p_weight st1\<rparr>\<rparr>);
          st3 = ctx_op Stroke (ctx_op (QuadraticCurveTo prevX prevY procX procY) st2)
      in (new_Point procX procY, st3))"

section \<open>Property setters\<close>

text \<open>
  A value assigned to a property is any JavaScript value. A setter that throws yields
  \<open>Inl\<close> of the error and of the state at the moment of the throw.
\<close>

datatype js_value =
    JSUndefined
  | JSNull
  | JSBoolean bool
  | JSNumber real
  | JSString string
  | JSObject

fun typeof :: "js_value \<Rightarrow> string" where
  "typeof JSUndefined = ''undefined''"
| "typeof JSNull = ''object''"
| "typeof (JSBoolean b) = ''boolean''"
| "typeof (JSNumber n) = ''number''"
| "typeof (JSString s) = ''string''"
| "typeof JSObject = ''object''"

datatype error = Error string

type_synonym 'a result = "error \<times> 'a + 'a"

definition set_color :: "js_value \<Rightarrow> atrament \<Rightarrow> atrament result" where
  "set_color c st =
     (case c of
        JSString s \<Rightarrow> Inr (st\<lparr>ctx := (ctx st)\<lparr>strokeStyle := s\<rparr>\<rparr>)
      | _ \<Rightarrow> Inl (Error ''wrong argument type'', st))"

definition set_weight :: "constants \<Rightarrow> js_value \<Rightarrow> atrament \<Rightarrow> atrament result" where
  "set_weight c w st =
     (case w of
        JSNumber n \<Rightarrow>
          Inr (st\<lparr>p_weight := n, p_thickness := n, p_targetThickness := n,
                  p_maxWeight := n + weightSpread c\<rparr>)
      | _ \<Rightarrow> Inl (Error ''wrong argument type'', st))"

definition set_mode :: "js_value \<Rightarrow> atrament \<Rightarrow> atrament result" where
  "set_mode m st =
     (case m of
        JSString s \<Rightarrow>
          Inr (if s = DrawingMode_ERASE
               then st\<lparr>p_mode := DrawingMode_ERASE,
                       ctx := (ctx st)\<lparr>globalCompositeOperation := ''destination-out''\<rparr>\<rparr>
               else if s = DrawingMode_FILL
               then st\<lparr>p_mode := DrawingMode_FILL,
                       ctx := (ctx st)\<lparr>globalCompositeOperation := ''source-over''\<rparr>\<rparr>
               else if s = DrawingMode_DISABLED then st\<lparr>p_mode := DrawingMode_DISABLED\<rparr>
               else if s = DrawingMode_PICKER then st\<lparr>p_mode := DrawingMode_PICKER\<rparr>
               else st\<lparr>p_mode := DrawingMode_DRAW,
                       ctx := (ctx st)\<lparr>globalCompositeOperation := ''source-over''\<rparr>\<rparr>)
      | _ \<Rightarrow> Inl (Error ''wrong argument type'', st))"

section \<open>Pointer handlers\<close>

record pointer_event =
  cancelable :: bool
  offsetX :: real
  offsetY :: real

text \<open>
  The \<^verbatim>\<open>pointermove\<close> handler. \<^verbatim>\<open>preventDefault\<close> has no effect on the state.
\<close>

definition pointerMove :: "constants \<Rightarrow> pointer_event \<Rightarrow> real \<Rightarrow> atrament \<Rightarrow> atrament" where
  "pointerMove c ev now st =
     (let x = offsetX ev; y = offsetY ev in
      if down (pointer st) \<and> mode st \<in> set PathDrawingModes
      then (case draw c x y (point_x (previous (pointer st))) (point_y (previous (pointer st)))
                   now st of
              (newP, st1) \<Rightarrow>
                (let st2 = (if \<not> p_dirty st1 \<and> mode st1 = DrawingMode_DRAW
                               \<and> (x \<noteq> point_x (pointer st1) \<or> y \<noteq> point_y (pointer st1))
                            then dispatchEvent Dirty (st1\<lparr>p_dirty := True\<rparr>)
                            else st1);
                     st3 = st2\<lparr>pointer := point_set x y (pointer st2)\<rparr>
                 in st3\<lparr>pointer := (pointer st3)
                       \<lparr>previous := point_set (point_x newP) (point_y newP)
                                      (previous (pointer st3))\<rparr>\<rparr>))
      else st\<lparr>pointer := point_set x y (pointer st)\<rparr>)"

section \<open>Fill engine\<close>

text \<open>
  Modelled from the spec: \<^verbatim>\<open>getImageData(x, y, 1, 1).data\<close> of the raster surface, the
  colour of one pixel. The coordinates are converted to integers by truncation, and a
  pixel outside the canvas reads as transparent black.
\<close>

definition to_long :: "real \<Rightarrow> int" where
  "to_long r = (if 0 \<le> r then \<lfloor>r\<rfloor> else \<lceil>r\<rceil>)"

definition getImageData1 :: "context2d \<Rightarrow> real \<Rightarrow> real \<Rightarrow> rgba" where
  "getImageData1 cx sx sy =
     (let x = to_long sx; y = to_long sy in
      if 0 \<le> x \<and> x < canvas_width cx \<and> 0 \<le> y \<and> y < canvas_height cx
      then (case pixel_at (pixels cx) ((y * canvas_width cx + x) * 4) of
              Some c \<Rightarrow> c
            | None \<Rightarrow> (0, 0, 0, 0))
      else (0, 0, 0, 0))"

text \<open>\<^verbatim>\<open>putImageData(colorLayer, 0, 0)\<close>: the working copy replaces the buffer.\<close>

definition putImageData :: "image_data \<Rightarrow> atrament \<Rightarrow> atrament" where
  "putImageData data st = ctx_op PutImageData (st\<lparr>ctx := (ctx st)\<lparr>pixels := data\<rparr>\<rparr>)"

text \<open>
  \<^verbatim>\<open>fill()\<close>. The scheduled callback reads the pointer when it runs; the queued
  request holds the pointer position of the call.
\<close>

definition fill :: "atrament \<Rightarrow> atrament" where
  "fill st =
     (let startC = getImageData1 (ctx st) (point_x (pointer st)) (point_y (pointer st)) in
      if \<not> p_filling st
      then (let st1 = dispatchEvent (FillStart (point_x (pointer st)) (point_y (pointer st))) st;
                st2 = st1\<lparr>p_filling := True\<rparr>
            in st2\<lparr>timers := timers st2 @ [startC]\<rparr>)
      else st\<lparr>p_fillStack := p_fillStack st @
                 [(point_x (pointer st), point_y (pointer st), startC)]\<rparr>)"

text \<open>The locals of \<^verbatim>\<open>_floodFill\<close> that its loops read.\<close>

record flood_locals =
  canvasWidth :: int
  canvasHeight :: int
  fillColor :: rgb
  startColor :: rgba
  alpha :: real

text \<open>
  The upward walk \<^verbatim>\<open>while (y-- >= 0 && matchColor(pixelPos)) pixelPos -= canvasWidth * 4\<close>.
  The post-decrement happens on every test, also on the failing one. The result is
  \<open>y\<close> and \<open>pixelPos\<close> when the loop is left.
\<close>

function scan_up :: "pixels_js \<Rightarrow> flood_locals \<Rightarrow> image_data \<Rightarrow> int \<Rightarrow> int \<Rightarrow> int \<times> int" where
  "scan_up px l data y pixelPos =
     (if y \<ge> 0 \<and> matchColor px data (startColor l) pixelPos
      then scan_up px l data (y - 1) (pixelPos - canvasWidth l * 4)
      else (y - 1, pixelPos))"
  by pat_completeness auto
termination
  by (relation "measure (\<lambda>(px, l, data, y, pixelPos). nat (y + 1))") auto

text \<open>
  The downward walk \<^verbatim>\<open>while (y++ < canvasHeight - 1 && matchColor(pixelPos)) { ... }\<close>,
  which colours the pixel, looks left and right, and pushes new seeds. The head of the
  list is the top of the JavaScript stack (the end of the array).
\<close>

function scan_down :: "pixels_js \<Rightarrow> flood_locals \<Rightarrow> int \<Rightarrow> image_data \<Rightarrow> int \<Rightarrow> int \<Rightarrow> bool \<Rightarrow> bool
    \<Rightarrow> (int \<times> int) list \<Rightarrow> image_data \<times> (int \<times> int) list" where
  "scan_down px l x data y pixelPos reachLeft reachRight pixelStack =
     (if y < canvasHeight l - 1 \<and> matchColor px data (startColor l) pixelPos
      then
        (let y1 = y + 1;
             data1 = colorPixel px data (fillColor l) (startColor l) (alpha l) pixelPos
         in
         (case (if x > 0
                then (if matchColor px data1 (startColor l) (pixelPos - 4)
                      then (if \<not> reachLeft then ((x - 1, y1) # pixelStack, True)
                            else (pixelStack, reachLeft))
                      else (if reachLeft then (pixelStack, False)
                            else (pixelStack, reachLeft)))
                else (pixelStack, reachLeft)) of
            (stack1, reachLeft1) \<Rightarrow>
         (case (if x < canvasWidth l - 1
                then (if matchColor px data1 (startColor l) (pixelPos + 4)
                      then (if \<not> reachRight then ((x + 1, y1) # stack1, True)
                            else (stack1, reachRight))
                      else (if reachRight then (stack1, False)
                            else (stack1, reachRight)))
                else (stack1, reachRight)) of
            (stack2, reachRight1) \<Rightarrow>
              scan_down px l x data1 y1 (pixelPos + canvasWidth l * 4)
                reachLeft1 reachRight1 stack2)))
      else (data, pixelStack))"
  by pat_completeness auto
termination
  by (relation "measure (\<lambda>(px, l, x, data, y, rest). nat (canvasHeight l - 1 - y))") auto

text \<open>
  The outer loop \<^verbatim>\<open>while (pixelStack.length) { ... }\<close>; \<^verbatim>\<open>pop\<close> takes the head
  of the list. Nothing in the code bounds the number of its rounds, so not returning is
  the value \<open>None\<close>.
\<close>

partial_function (option) fill_loop :: "pixels_js \<Rightarrow> flood_locals \<Rightarrow> image_data \<Rightarrow> (int \<times> int) list
    \<Rightarrow> image_data option" where
  "fill_loop px l data pixelStack =
     (if pixelStack = [] then Some data
      else
        (let newPos = hd pixelStack; rest = tl pixelStack in
         (case scan_up px l data (snd newPos)
                 ((snd newPos * canvasWidth l + fst newPos) * 4) of
            (y, pixelPos) \<Rightarrow>
              (case scan_down px l (fst newPos) data (y + 1) (pixelPos + canvasWidth l * 4)
                      False False rest of
                 (data1, stack1) \<Rightarrow> fill_loop px l data1 stack1))))"

text \<open>
  \<^verbatim>\<open>_floodFill(_startX, _startY, startColor)\<close>, with its call of itself on the next
  queued request.
\<close>

partial_function (option) p_floodFill :: "pixels_js \<Rightarrow> atrament \<Rightarrow> real \<times> real \<times> rgba
    \<Rightarrow> atrament option" where
  "p_floodFill px st req =
     (case req of (sx, sy, startC) \<Rightarrow>
        (let startX = \<lfloor>sx\<rfloor>;
             startY = \<lfloor>sy\<rfloor>;
             l = \<lparr>canvasWidth = canvas_width (ctx st), canvasHeight = canvas_height (ctx st),
                  fillColor = hexToRgb px (color st), startColor = startC,
                  alpha = min (globalAlpha (ctx st) * 10 * 255) 255\<rparr>;
             colorLayer = pixels (ctx st)
         in
         if matchColor px colorLayer
              (fst (fillColor l), fst (snd (fillColor l)), snd (snd (fillColor l)), 255)
              ((startY * canvas_width (ctx st) + startX) * 4)
         then Some (dispatchEvent FillEnd (st\<lparr>p_filling := False\<rparr>))
         else
           (case fill_loop px l colorLayer [(startX, startY)] of
              None \<Rightarrow> None
            | Some data \<Rightarrow>
                (let st1 = putImageData data st in
                 (case p_fillStack st1 of
                    [] \<Rightarrow> Some (dispatchEvent FillEnd (st1\<lparr>p_filling := False\<rparr>))
                  | nxt # rest \<Rightarrow> p_floodFill px (st1\<lparr>p_fillStack := rest\<rparr>) nxt)))))"

text \<open>The oldest scheduled callback runs: \<^verbatim>\<open>this._floodFill(pointer.x, pointer.y, startColor)\<close>.\<close>

definition run_timer :: "pixels_js \<Rightarrow> atrament \<Rightarrow> atrament option" where
  "run_timer px st =
     (case timers st of
        [] \<Rightarrow> Some st
      | startC # rest \<Rightarrow>
          p_floodFill px (st\<lparr>timers := rest\<rparr>)
            (point_x (pointer st), point_y (pointer st), startC))"

text \<open>
  The equations of the two walks are unconditional recursions; they are unfolded by hand.
\<close>

declare scan_up.simps [simp del] scan_down.simps [simp del]

section \<open>Concrete inputs\<close>

text \<open>
  Values at which the theorems below are instantiated: a set of constants, a canvas of
  two pixels (red, then blue), exact colour matching, and a colouring primitive that
  overwrites the pixel with the fill colour.
\<close>

definition ex_constants :: constants where
  "ex_constants = \<lparr>floodFillInterval = 100, initialSmoothingFactor = 0.85,
     minSmoothingFactor = 0.87, initialThickness = 2, weightSpread = 10,
     minLineThickness = 1, lineThicknessRange = 49, thicknessIncrement = 0.5\<rparr>"

text \<open>\<open>n\<close> successive calls of \<^verbatim>\<open>draw\<close> with the same arguments.\<close>

primrec draw_times :: "nat \<Rightarrow> constants \<Rightarrow> real \<Rightarrow> real \<Rightarrow> real \<Rightarrow> real \<Rightarrow> atrament \<Rightarrow> atrament" where
  "draw_times 0 c x y prevX prevY st = st"
| "draw_times (Suc n) c x y prevX prevY st =
     draw_times n c x y prevX prevY (snd (draw c x y prevX prevY 0 st))"

definition ex_atrament :: atrament where
  "ex_atrament = new_atrament ex_constants 2 1 [(255, 0, 0, 255), (0, 0, 255, 255)]"

definition ex_pixels :: pixels_js where
  "ex_pixels = \<lparr>near = (\<lambda>c d. c = d),
     blend = (\<lambda>f s a old. (fst f, fst (snd f), snd (snd f), nat \<lfloor>a\<rfloor>)),
     hexToRgb = (\<lambda>s. if s = ''#ff0000'' then (255, 0, 0) else (0, 0, 0))\<rparr>"

definition ex_red :: atrament where
  "ex_red = ex_atrament\<lparr>ctx := (ctx ex_atrament)\<lparr>strokeStyle := ''#ff0000''\<rparr>,
                        p_mode := ''fill''\<rparr>"

definition ev_at :: "real \<Rightarrow> real \<Rightarrow> pointer_event" where
  "ev_at x y = \<lparr>cancelable = True, offsetX = x, offsetY = y\<rparr>"

section \<open>Rectangular regions\<close>

text \<open>
  An image given by its pixel function, row-major: entry \<open>y * W + x\<close> is the pixel in
  column \<open>x\<close> of row \<open>y\<close>.
\<close>

definition image_of :: "int \<Rightarrow> int \<Rightarrow> (int \<Rightarrow> int \<Rightarrow> rgba) \<Rightarrow> image_data" where
  "image_of W H f = map (\<lambda>i. f (int i mod W) (int i div W)) [0..<nat (W * H)]"

text \<open>An axis-aligned rectangle, by its first and last column and row.\<close>

record rect =
  rx0 :: int
  rx1 :: int
  ry0 :: int
  ry1 :: int

definition in_rect :: "rect \<Rightarrow> int \<Rightarrow> int \<Rightarrow> bool" where
  "in_rect R x y \<longleftrightarrow> rx0 R \<le> x \<and> x \<le> rx1 R \<and> ry0 R \<le> y \<and> y \<le> ry1 R"

text \<open>A buffer with one rectangle of colour \<open>cin\<close> on a background \<open>cout\<close>.\<close>

definition rect_img :: "int \<Rightarrow> int \<Rightarrow> rect \<Rightarrow> rgba \<Rightarrow> rgba \<Rightarrow> image_data" where
  "rect_img W H R cin cout = image_of W H (\<lambda>x y. if in_rect R x y then cin else cout)"

text \<open>
  The locals of \<^verbatim>\<open>_floodFill\<close> as it computes them from the state and the start
  colour, and the colour the colouring primitive leaves on a pixel of the start colour.
\<close>

definition pass_locals :: "pixels_js \<Rightarrow> atrament \<Rightarrow> rgba \<Rightarrow> flood_locals" where
  "pass_locals px st startC =
     \<lparr>canvasWidth = canvas_width (ctx st), canvasHeight = canvas_height (ctx st),
      fillColor = hexToRgb px (color st), startColor = startC,
      alpha = min (globalAlpha (ctx st) * 10 * 255) 255\<rparr>"

definition painted :: "pixels_js \<Rightarrow> flood_locals \<Rightarrow> rgba" where
  "painted px l = blend px (fillColor l) (startColor l) (alpha l) (startColor l)"

text \<open>
  The pixels that differ between two buffers, the pixels of the canvas that match a
  colour, and the 4-connected closure of a seed under a predicate on pixels.
\<close>

definition mutated :: "int \<Rightarrow> int \<Rightarrow> image_data \<Rightarrow> image_data \<Rightarrow> (int \<times> int) set" where
  "mutated W H d d' =
     {(x, y). 0 \<le> x \<and> x < W \<and> 0 \<le> y \<and> y < H
              \<and> pixel_at d' ((y * W + x) * 4) \<noteq> pixel_at d ((y * W + x) * 4)}"

definition matches_at :: "pixels_js \<Rightarrow> int \<Rightarrow> int \<Rightarrow> image_data \<Rightarrow> rgba \<Rightarrow> int \<Rightarrow> int \<Rightarrow> bool" where
  "matches_at px W H d c x y \<longleftrightarrow>
     0 \<le> x \<and> x < W \<and> 0 \<le> y \<and> y < H \<and> matchColor px d c ((y * W + x) * 4)"

inductive_set region4 :: "(int \<Rightarrow> int \<Rightarrow> bool) \<Rightarrow> int \<Rightarrow> int \<Rightarrow> (int \<times> int) set"
  for ok :: "int \<Rightarrow> int \<Rightarrow> bool" and sx :: int and sy :: int where
  seed: "ok sx sy \<Longrightarrow> (sx, sy) \<in> region4 ok sx sy"
| left: "(x, y) \<in> region4 ok sx sy \<Longrightarrow> ok (x - 1) y \<Longrightarrow> (x - 1, y) \<in> region4 ok sx sy"
| right: "(x, y) \<in> region4 ok sx sy \<Longrightarrow> ok (x + 1) y \<Longrightarrow> (x + 1, y) \<in> region4 ok sx sy"
| up: "(x, y) \<in> region4 ok sx sy \<Longrightarrow> ok x (y - 1) \<Longrightarrow> (x, y - 1) \<in> region4 ok sx sy"
| down: "(x, y) \<in> region4 ok sx sy \<Longrightarrow> ok x (y + 1) \<Longrightarrow> (x, y + 1) \<in> region4 ok sx sy"

text \<open>
  The setting of a pass on a rectangle: the rectangle lies in the canvas, the start colour
  matches itself, and neither the background nor a coloured pixel matches it.
\<close>

definition fill_setting :: "pixels_js \<Rightarrow> flood_locals \<Rightarrow> rect \<Rightarrow> rgba \<Rightarrow> bool" where
  "fill_setting px l R C2 \<longleftrightarrow>
     0 \<le> rx0 R \<and> rx0 R \<le> rx1 R \<and> rx1 R < canvasWidth l
     \<and> 0 \<le> ry0 R \<and> ry0 R \<le> ry1 R \<and> ry1 R < canvasHeight l
     \<and> near px (startColor l) (startColor l)
     \<and> \<not> near px C2 (startColor l)
     \<and> \<not> near px (painted px l) (startColor l)"

text \<open>
  The buffer in the middle of a pass: the columns of \<open>cdone\<close> are coloured, and so is
  column \<open>x\<close> above row \<open>r\<close>. \<open>stage\<close> is the buffer between two columns, and
  \<open>cols a b\<close> the columns from \<open>a\<close> to \<open>b\<close>.
\<close>

definition progress_image :: "pixels_js \<Rightarrow> flood_locals \<Rightarrow> rect \<Rightarrow> rgba \<Rightarrow> (int \<Rightarrow> bool) \<Rightarrow> int \<Rightarrow> int
    \<Rightarrow> image_data" where
  "progress_image px l R C2 cdone x r =
     image_of (canvasWidth l) (canvasHeight l)
       (\<lambda>x' y'. if in_rect R x' y'
                then (if cdone x' \<or> (x' = x \<and> y' < r) then painted px l else startColor l)
                else C2)"

definition cols :: "int \<Rightarrow> int \<Rightarrow> int \<Rightarrow> bool" where
  "cols a b x \<longleftrightarrow> a \<le> x \<and> x \<le> b"

definition stage :: "pixels_js \<Rightarrow> flood_locals \<Rightarrow> rect \<Rightarrow> rgba \<Rightarrow> (int \<Rightarrow> bool) \<Rightarrow> image_data" where
  "stage px l R C2 cdone = progress_image px l R C2 cdone 0 (ry0 R)"

text \<open>
  A canvas of three by three pixels, white, with a blue square in its lower right corner.
\<close>

definition ex_rect :: rect where
  "ex_rect = \<lparr>rx0 = 1, rx1 = 2, ry0 = 1, ry1 = 2\<rparr>"

definition ex_square :: atrament where
  "ex_square =
     (new_atrament ex_constants 3 3
        (rect_img 3 3 ex_rect (0, 0, 255, 255) (255, 255, 255, 255)))
     \<lparr>ctx := (ctx (new_atrament ex_constants 3 3
                (rect_img 3 3 ex_rect (0, 0, 255, 255) (255, 255, 255, 255))))
             \<lparr>strokeStyle := ''#ff0000''\<rparr>\<rparr>"

section \<open>Stroke renderer: properties\<close>

lemma record_sample_simps:
  "smoothing (record_sample x y now st) = smoothing st"
  "adaptiveStroke (record_sample x y now st) = adaptiveStroke st"
  "p_thickness (record_sample x y now st) = p_thickness st"
  "p_weight (record_sample x y now st) = p_weight st"
  "p_maxWeight (record_sample x y now st) = p_maxWeight st"
  "recordStrokes (record_sample x y now st) = recordStrokes st"
  "strokeTimestamp (record_sample x y now st) = strokeTimestamp st"
  "pointer (record_sample x y now st) = pointer st"
  "p_mode (record_sample x y now st) = p_mode st"
  "p_dirty (record_sample x y now st) = p_dirty st"
  "events (record_sample x y now st) = events st"
  by (simp_all add: record_sample_def)

lemma smoothingFactor_record_sample:
  "smoothingFactor c (record_sample x' y' now st) x y prevX prevY = smoothingFactor c st x y prevX prevY"
  by (simp add: smoothingFactor_def record_sample_simps)

text \<open>
  C5. For every call \<^verbatim>\<open>draw(x, y, prevX, prevY)\<close> the smoothing factor is the minimum of
  the configured ceiling and \<open>smoothing + (rawDist - 60) / 3000\<close>, where \<open>rawDist\<close> is the
  Euclidean distance of the two points; it never exceeds the ceiling; and the returned
  point is \<open>(x - (x - prevX) * factor, y - (y - prevY) * factor)\<close>.
\<close>

theorem draw_smoothing_factor:
  "smoothingFactor c st x y prevX prevY =
     min (minSmoothingFactor c)
       (smoothing st + (sqrt ((prevX - x)\<^sup>2 + (prevY - y)\<^sup>2) - 60) / 3000)
   \<and> smoothingFactor c st x y prevX prevY \<le> minSmoothingFactor c
   \<and> fst (draw c x y prevX prevY now st) =
       new_Point (x - (x - prevX) * smoothingFactor c st x y prevX prevY)
                 (y - (y - prevY) * smoothingFactor c st x y prevX prevY)"
  by (simp add: draw_def Let_def smoothingFactor_record_sample)
     (simp add: smoothingFactor_def lineDistance_def)

lemma approach_thickness:
  "p_thickness (approach c d st) =
     (if p_thickness st > p_targetThickness (approach c d st) then p_thickness st - thicknessIncrement c
      else if p_thickness st < p_targetThickness (approach c d st) then p_thickness st + thicknessIncrement c
      else p_thickness st)"
  by (simp add: approach_def Let_def)

lemma draw_thickness:
  "adaptiveStroke st \<Longrightarrow>
   p_thickness (snd (draw c x y prevX prevY now st)) =
     (let t = p_targetThickness (snd (draw c x y prevX prevY now st)) in
      if p_thickness st > t then p_thickness st - thicknessIncrement c
      else if p_thickness st < t then p_thickness st + thicknessIncrement c
      else p_thickness st)"
  by (simp add: draw_def Let_def ctx_op_def record_sample_simps approach_def)

text \<open>
  C3, as amended. With adaptive stroke enabled, one call of \<^verbatim>\<open>draw\<close> changes the
  thickness by at most one increment, towards the target computed by that call and never
  onto it directly; the thickness after the call is at most the larger of the thickness
  before it and the target plus one increment. The code has no clamp at the maximum
  weight.
\<close>

theorem draw_thickness_step:
  assumes "adaptiveStroke st" and "0 \<le> thicknessIncrement c"
  shows "\<bar>p_thickness (snd (draw c x y prevX prevY now st)) - p_thickness st\<bar> \<le> thicknessIncrement c
    \<and> (p_thickness st < p_targetThickness (snd (draw c x y prevX prevY now st)) \<longrightarrow>
         p_thickness (snd (draw c x y prevX prevY now st)) = p_thickness st + thicknessIncrement c)
    \<and> (p_thickness st > p_targetThickness (snd (draw c x y prevX prevY now st)) \<longrightarrow>
         p_thickness (snd (draw c x y prevX prevY now st)) = p_thickness st - thicknessIncrement c)
    \<and> (p_thickness st = p_targetThickness (snd (draw c x y prevX prevY now st)) \<longrightarrow>
         p_thickness (snd (draw c x y prevX prevY now st)) = p_thickness st)
    \<and> p_thickness (snd (draw c x y prevX prevY now st))
         \<le> max (p_thickness st)
               (p_targetThickness (snd (draw c x y prevX prevY now st)) + thicknessIncrement c)"
  using assms by (auto simp: draw_thickness Let_def)

lemma ex_atrament_simps:
  "adaptiveStroke ex_atrament" "p_thickness ex_atrament = 2" "p_weight ex_atrament = 2"
  "p_maxWeight ex_atrament = 12" "smoothing ex_atrament = 0.85"
  "\<not> recordStrokes ex_atrament"
  by (simp_all add: ex_atrament_def new_atrament_def ex_constants_def)

theorem draw_thickness_step_witness:
  "adaptiveStroke ex_atrament \<and> 0 \<le> thicknessIncrement ex_constants
   \<and> \<bar>p_thickness (snd (draw ex_constants 1000 0 0 0 0 ex_atrament)) - p_thickness ex_atrament\<bar>
        \<le> thicknessIncrement ex_constants"
  using draw_thickness_step [of ex_atrament ex_constants 1000 0 0 0 0]
  by (simp add: ex_atrament_simps ex_constants_def)

lemma far_draw:
  assumes "adaptiveStroke st" "smoothing st = 0.85" "p_weight st = 2" "p_maxWeight st = 12"
    "p_thickness st < 20"
  shows "adaptiveStroke (snd (draw ex_constants 1000 0 0 0 now st))"
    "smoothing (snd (draw ex_constants 1000 0 0 0 now st)) = 0.85"
    "p_weight (snd (draw ex_constants 1000 0 0 0 now st)) = 2"
    "p_maxWeight (snd (draw ex_constants 1000 0 0 0 now st)) = 12"
    "p_thickness (snd (draw ex_constants 1000 0 0 0 now st)) = p_thickness st + 0.5"
  using assms
  by (simp_all add: draw_def Let_def ctx_op_def record_sample_simps approach_def
      smoothingFactor_def lineDistance_def ex_constants_def)

lemma far_draws:
  "adaptiveStroke st \<Longrightarrow> smoothing st = 0.85 \<Longrightarrow> p_weight st = 2 \<Longrightarrow> p_maxWeight st = 12 \<Longrightarrow>
   p_thickness st + real n / 2 \<le> 20 \<Longrightarrow>
   p_thickness (draw_times n ex_constants 1000 0 0 0 st) = p_thickness st + real n / 2
   \<and> p_maxWeight (draw_times n ex_constants 1000 0 0 0 st) = 12
   \<and> adaptiveStroke (draw_times n ex_constants 1000 0 0 0 st)"
proof (induction n arbitrary: st)
  case 0
  then show ?case by simp
next
  case (Suc n)
  let ?s = "snd (draw ex_constants 1000 0 0 0 0 st)"
  have "p_thickness st + (1 + real n) / 2 \<le> 20" using Suc.prems(5) by simp
  then have lt: "p_thickness st < 20" by (simp add: field_simps)
  note fd = far_draw [OF Suc.prems(1-4) lt, of 0]
  have "p_thickness ?s + real n / 2 \<le> 20"
    using Suc.prems(5) fd(5) by (simp add: field_simps)
  from Suc.IH [OF fd(1-4) this] show ?case using fd(5) by (simp add: field_simps)
qed

text \<open>
  C3, as stated, fails: twenty-one calls of \<^verbatim>\<open>draw\<close> over a distance of 1000 pixels,
  from the constructor's state, take the thickness from 2 to 12.5, above the maximum
  weight 12.
\<close>

theorem thickness_exceeds_maxWeight:
  "adaptiveStroke (draw_times 21 ex_constants 1000 0 0 0 ex_atrament)
   \<and> p_thickness (draw_times 21 ex_constants 1000 0 0 0 ex_atrament)
       > p_maxWeight (draw_times 21 ex_constants 1000 0 0 0 ex_atrament)"
  using far_draws [of ex_atrament 21] by (simp add: ex_atrament_simps)

lemma approach_fields:
  "events (approach c d st) = events st"
  "recordStrokes (approach c d st) = recordStrokes st"
  "strokeTimestamp (approach c d st) = strokeTimestamp st"
  "strokeMemory (approach c d st) = strokeMemory st"
  "p_mode (approach c d st) = p_mode st"
  "p_weight (approach c d st) = p_weight st"
  "smoothing (approach c d st) = smoothing st"
  "adaptiveStroke (approach c d st) = adaptiveStroke st"
  "strokeStyle (ctx (approach c d st)) = strokeStyle (ctx st)"
  "pointer (approach c d st) = pointer st"
  "p_dirty (approach c d st) = p_dirty st"
  by (simp_all add: approach_def Let_def)

lemma draw_fields:
  "events (snd (draw c x y prevX prevY now st)) = events st"
  "recordStrokes (snd (draw c x y prevX prevY now st)) = recordStrokes st"
  "strokeTimestamp (snd (draw c x y prevX prevY now st)) = strokeTimestamp st"
  "strokeMemory (snd (draw c x y prevX prevY now st)) =
     (if recordStrokes st
      then strokeMemory st @
             [\<lparr>point = new_Point x y, time = map_option (\<lambda>t0. now - t0) (strokeTimestamp st)\<rparr>]
      else strokeMemory st)"
  "p_mode (snd (draw c x y prevX prevY now st)) = p_mode st"
  "p_weight (snd (draw c x y prevX prevY now st)) = p_weight st"
  "smoothing (snd (draw c x y prevX prevY now st)) = smoothing st"
  "adaptiveStroke (snd (draw c x y prevX prevY now st)) = adaptiveStroke st"
  "strokeStyle (ctx (snd (draw c x y prevX prevY now st))) = strokeStyle (ctx st)"
  "pointer (snd (draw c x y prevX prevY now st)) = pointer st"
  "p_dirty (snd (draw c x y prevX prevY now st)) = p_dirty st"
  by (simp_all add: draw_def Let_def ctx_op_def approach_fields record_sample_def)

lemma beginStroke_fields:
  "events (beginStroke x y n0 n1 st) = events st @ [StrokeStart x y]"
  "recordStrokes (beginStroke x y n0 n1 st) = recordStrokes st"
  "strokeTimestamp (beginStroke x y n0 n1 st) =
     (if recordStrokes st then Some n0 else strokeTimestamp st)"
  "strokeMemory (beginStroke x y n0 n1 st) =
     (if recordStrokes st
      then strokeMemory st @ [\<lparr>point = new_Point x y, time = Some (n1 - n0)\<rparr>]
      else strokeMemory st)"
  "p_mode (beginStroke x y n0 n1 st) = p_mode st"
  "p_weight (beginStroke x y n0 n1 st) = p_weight st"
  "smoothing (beginStroke x y n0 n1 st) = smoothing st"
  "adaptiveStroke (beginStroke x y n0 n1 st) = adaptiveStroke st"
  "strokeStyle (ctx (beginStroke x y n0 n1 st)) = strokeStyle (ctx st)"
  by (simp_all add: beginStroke_def Let_def ctx_op_def dispatchEvent_def record_sample_def)

lemma endStroke_recording:
  "recordStrokes st \<Longrightarrow>
   events (endStroke x y now st) =
     events st @
       [StrokeEnd x y,
        StrokeRecorded
          \<lparr>points = strokeMemory st @
             [\<lparr>point = new_Point x y, time = map_option (\<lambda>t0. now - t0) (strokeTimestamp st)\<rparr>],
           stroke_mode = p_mode st, stroke_weight = p_weight st,
           stroke_smoothing = smoothing st, stroke_color = strokeStyle (ctx st),
           stroke_adaptiveStroke = adaptiveStroke st\<rparr>]
   \<and> strokeMemory (endStroke x y now st) = []"
  by (simp add: endStroke_def Let_def ctx_op_def dispatchEvent_def record_sample_def
      mode_def weight_def color_def)

text \<open>
  C7. With recording enabled and no stroke in progress, \<^verbatim>\<open>beginStroke\<close>, three calls of
  \<^verbatim>\<open>draw\<close> and \<^verbatim>\<open>endStroke\<close> emit a recorded stroke of exactly five points: the start
  anchor, the three samples and the end anchor, each stamped with the clock reading of its
  call minus the stroke's timestamp. The stamps are in ascending order when the clock
  readings are, and strictly so when the readings strictly increase.
\<close>

theorem recorded_stroke_five_points:
  assumes "recordStrokes st" and "strokeMemory st = []"
  shows
    "(let st1 = beginStroke x0 y0 n0 n1 st;
          st2 = snd (draw c x1 y1 px1 py1 n2 st1);
          st3 = snd (draw c x2 y2 px2 py2 n3 st2);
          st4 = snd (draw c x3 y3 px3 py3 n4 st3);
          st5 = endStroke xe ye n5 st4;
          pts = [\<lparr>point = new_Point x0 y0, time = Some (n1 - n0)\<rparr>,
                 \<lparr>point = new_Point x1 y1, time = Some (n2 - n0)\<rparr>,
                 \<lparr>point = new_Point x2 y2, time = Some (n3 - n0)\<rparr>,
                 \<lparr>point = new_Point x3 y3, time = Some (n4 - n0)\<rparr>,
                 \<lparr>point = new_Point xe ye, time = Some (n5 - n0)\<rparr>]
      in events st5 =
           events st @
             [StrokeStart x0 y0, StrokeEnd xe ye,
              StrokeRecorded
                \<lparr>points = pts, stroke_mode = mode st, stroke_weight = weight st,
                 stroke_smoothing = smoothing st, stroke_color = color st,
                 stroke_adaptiveStroke = adaptiveStroke st\<rparr>]
         \<and> length pts = 5
         \<and> (n1 \<le> n2 \<and> n2 \<le> n3 \<and> n3 \<le> n4 \<and> n4 \<le> n5 \<longrightarrow>
              sorted (map (\<lambda>p. the (time p)) pts))
         \<and> (n1 < n2 \<and> n2 < n3 \<and> n3 < n4 \<and> n4 < n5 \<longrightarrow>
              sorted_wrt (<) (map (\<lambda>p. the (time p)) pts))
         \<and> strokeMemory st5 = [])"
  using assms
  by (simp add: Let_def endStroke_recording draw_fields beginStroke_fields
      mode_def weight_def color_def)

theorem recorded_stroke_five_points_witness:
  "recordStrokes (ex_atrament\<lparr>recordStrokes := True\<rparr>)
   \<and> strokeMemory (ex_atrament\<lparr>recordStrokes := True\<rparr>) = []
   \<and> (let st1 = beginStroke 0 0 10 11 (ex_atrament\<lparr>recordStrokes := True\<rparr>);
          st2 = snd (draw ex_constants 1 1 0 0 12 st1);
          st3 = snd (draw ex_constants 2 2 1 1 13 st2);
          st4 = snd (draw ex_constants 3 3 2 2 14 st3);
          st5 = endStroke 3 3 15 st4
      in case last (events st5) of
           StrokeRecorded s \<Rightarrow> length (points s) = 5
             \<and> map (\<lambda>p. the (time p)) (points s) = [1, 2, 3, 4, 5]
         | _ \<Rightarrow> False)"
  using recorded_stroke_five_points [of "ex_atrament\<lparr>recordStrokes := True\<rparr>"
      0 0 10 11 ex_constants 1 1 0 0 12 2 2 1 1 13 3 3 2 2 14 3 3 15]
  by (simp add: Let_def ex_atrament_def new_atrament_def)

lemma Pointer_previous_simps [simp]:
  "point_x ((p::Pointer)\<lparr>previous := n\<rparr>) = point_x p"
  "point_y ((p::Pointer)\<lparr>previous := n\<rparr>) = point_y p"
  "previous ((p::Pointer)\<lparr>point_x := a\<rparr>) = previous p"
  "previous ((p::Pointer)\<lparr>point_y := a\<rparr>) = previous p"
  by (cases p, simp)+

lemma point_set_Point: "point_set (point_x q) (point_y q) (p :: Point) = q"
  by (simp add: point_set_def)

text \<open>
  C6. After a \<^verbatim>\<open>pointermove\<close> sample processed while the pointer is down in a
  path-drawing mode, \<^verbatim>\<open>pointer.previous\<close> is the smoothed point returned by \<^verbatim>\<open>draw\<close>
  for that sample; the raw coordinate of the sample goes to the pointer itself.
\<close>

theorem pointerMove_previous:
  assumes "down (pointer st)" and "mode st \<in> set PathDrawingModes"
  shows
    "previous (pointer (pointerMove c ev now st)) =
       fst (draw c (offsetX ev) (offsetY ev)
              (point_x (previous (pointer st))) (point_y (previous (pointer st))) now st)
     \<and> point_x (pointer (pointerMove c ev now st)) = offsetX ev
     \<and> point_y (pointer (pointerMove c ev now st)) = offsetY ev"
proof -
  obtain newP st1 where d:
    "draw c (offsetX ev) (offsetY ev)
       (point_x (previous (pointer st))) (point_y (previous (pointer st))) now st = (newP, st1)"
    by (cases "draw c (offsetX ev) (offsetY ev)
       (point_x (previous (pointer st))) (point_y (previous (pointer st))) now st")
  show ?thesis
    using assms
    by (simp add: pointerMove_def Let_def d point_set_Point dispatchEvent_def)
       (simp add: point_set_def)
qed

theorem pointerMove_previous_witness:
  "down (pointer (ex_atrament\<lparr>pointer := new_Pointer\<lparr>down := True\<rparr>\<rparr>))
   \<and> mode (ex_atrament\<lparr>pointer := new_Pointer\<lparr>down := True\<rparr>\<rparr>) \<in> set PathDrawingModes
   \<and> previous (pointer (pointerMove ex_constants
         \<lparr>cancelable = True, offsetX = 100, offsetY = 0\<rparr> 0
         (ex_atrament\<lparr>pointer := new_Pointer\<lparr>down := True\<rparr>\<rparr>))) = new_Point (41 / 3) 0"
  using pointerMove_previous [of "ex_atrament\<lparr>pointer := new_Pointer\<lparr>down := True\<rparr>\<rparr>"
      ex_constants "\<lparr>cancelable = True, offsetX = 100, offsetY = 0\<rparr>" 0]
  by (simp add: ex_atrament_def new_atrament_def mode_def PathDrawingModes_def
      DrawingMode_DRAW_def new_Pointer_def new_Point_def draw_def Let_def
      smoothingFactor_def lineDistance_def ex_constants_def)

section \<open>Property setters: properties\<close>

text \<open>
  C8. Assigning a value that is not a string to \<^verbatim>\<open>color\<close> or \<^verbatim>\<open>mode\<close>, or a value
  that is not a number to \<^verbatim>\<open>weight\<close>, throws at the assignment, and the state at the
  throw is the state before the assignment.
\<close>

theorem setters_validate_first:
  "(typeof v \<noteq> ''string'' \<longrightarrow>
      set_color v st = Inl (Error ''wrong argument type'', st)
      \<and> set_mode v st = Inl (Error ''wrong argument type'', st))
   \<and> (typeof v \<noteq> ''number'' \<longrightarrow>
      set_weight c v st = Inl (Error ''wrong argument type'', st))"
  by (cases v) (simp_all add: set_color_def set_mode_def set_weight_def)

theorem setters_validate_first_witness:
  "typeof (JSNumber 3) \<noteq> ''string''
   \<and> set_color (JSNumber 3) ex_atrament = Inl (Error ''wrong argument type'', ex_atrament)
   \<and> set_mode (JSNumber 3) ex_atrament = Inl (Error ''wrong argument type'', ex_atrament)
   \<and> typeof (JSString ''5'') \<noteq> ''number''
   \<and> set_weight ex_constants (JSString ''5'') ex_atrament
       = Inl (Error ''wrong argument type'', ex_atrament)"
  using setters_validate_first [of "JSNumber 3" ex_atrament ex_constants]
    setters_validate_first [of "JSString ''5''" ex_atrament ex_constants]
  by simp

text \<open>
  C9. Assigning to \<^verbatim>\<open>mode\<close> a string other than \<open>erase\<close>, \<open>fill\<close>, \<open>disabled\<close> and
  \<open>picker\<close> does not throw: the mode becomes \<open>draw\<close> and the compositing operation
  \<open>source-over\<close>.
\<close>

theorem set_mode_unknown_string:
  assumes "s \<noteq> ''erase''" and "s \<noteq> ''fill''" and "s \<noteq> ''disabled''" and "s \<noteq> ''picker''"
  shows "set_mode (JSString s) st =
     Inr (st\<lparr>p_mode := ''draw'',
             ctx := (ctx st)\<lparr>globalCompositeOperation := ''source-over''\<rparr>\<rparr>)"
  using assms
  by (simp add: set_mode_def DrawingMode_ERASE_def DrawingMode_FILL_def
      DrawingMode_DISABLED_def DrawingMode_PICKER_def DrawingMode_DRAW_def)

theorem set_mode_unknown_string_witness:
  "''bogus'' \<noteq> ''erase'' \<and> ''bogus'' \<noteq> ''fill'' \<and> ''bogus'' \<noteq> ''disabled''
   \<and> ''bogus'' \<noteq> ''picker''
   \<and> set_mode (JSString ''bogus'') (ex_atrament\<lparr>p_mode := ''fill''\<rparr>) =
     Inr (ex_atrament\<lparr>p_mode := ''draw'',
             ctx := (ctx ex_atrament)\<lparr>globalCompositeOperation := ''source-over''\<rparr>\<rparr>)"
  using set_mode_unknown_string [of "''bogus''" "ex_atrament\<lparr>p_mode := ''fill''\<rparr>"]
  by simp

section \<open>Fill engine: properties\<close>

text \<open>
  C4. If the pixel at the floored seed matches the fill colour at full opacity, the pass
  stops at once: the context, hence the pixel buffer and the log of commands, is
  unchanged (no \<^verbatim>\<open>putImageData\<close>), the filling flag is cleared and \<open>fillend\<close> is sent.
\<close>

theorem floodFill_same_color_noop:
  assumes "matchColor px (pixels (ctx st))
             (fst (hexToRgb px (color st)), fst (snd (hexToRgb px (color st))),
              snd (snd (hexToRgb px (color st))), 255)
             ((\<lfloor>sy\<rfloor> * canvas_width (ctx st) + \<lfloor>sx\<rfloor>) * 4)"
  shows "p_floodFill px st (sx, sy, startC) =
           Some (st\<lparr>p_filling := False, events := events st @ [FillEnd]\<rparr>)"
  using assms
  by (subst p_floodFill.simps) (simp add: Let_def dispatchEvent_def)

theorem floodFill_same_color_noop_witness:
  "matchColor ex_pixels (pixels (ctx ex_red))
     (fst (hexToRgb ex_pixels (color ex_red)), fst (snd (hexToRgb ex_pixels (color ex_red))),
      snd (snd (hexToRgb ex_pixels (color ex_red))), 255)
     ((\<lfloor>0::real\<rfloor> * canvas_width (ctx ex_red) + \<lfloor>1/2::real\<rfloor>) * 4)
   \<and> p_floodFill ex_pixels ex_red (1/2, 0, (0, 0, 255, 255)) =
       Some (ex_red\<lparr>p_filling := False, events := events ex_red @ [FillEnd]\<rparr>)"
proof -
  have m: "matchColor ex_pixels (pixels (ctx ex_red))
     (fst (hexToRgb ex_pixels (color ex_red)), fst (snd (hexToRgb ex_pixels (color ex_red))),
      snd (snd (hexToRgb ex_pixels (color ex_red))), 255)
     ((\<lfloor>0::real\<rfloor> * canvas_width (ctx ex_red) + \<lfloor>1/2::real\<rfloor>) * 4)"
    by (simp add: ex_red_def ex_atrament_def new_atrament_def ex_pixels_def color_def
        matchColor_def pixel_at_def)
  show ?thesis
    by (intro conjI m floodFill_same_color_noop [OF m])
qed

lemma floodFill_events:
  assumes "p_floodFill px st req = Some st'"
  shows "events st' = events st @ [FillEnd] \<and> \<not> p_filling st'"
  using assms
proof (induct rule: p_floodFill.raw_induct [rotated 1, consumes 1, case_names step])
  case (step rec px st req st')
  note IH = step(1) and body = step(2)
  obtain sx sy startC where req: "req = (sx, sy, startC)"
    by (cases req) auto
  show ?case
    using body unfolding req
    by (auto simp: Let_def dispatchEvent_def putImageData_def ctx_op_def
        split: if_splits option.splits list.splits dest!: IH)
qed

text \<open>
  C10. \<^verbatim>\<open>fill\<close> sends \<open>fillstart\<close> only when no fill is in progress; a request made
  while one is in progress is queued and sends nothing. A run of \<^verbatim>\<open>_floodFill\<close> that
  returns, whatever the queue held, sends exactly one event, \<open>fillend\<close>, and leaves the
  filling flag cleared.
\<close>

theorem fillstart_brackets_busy_period:
  "(\<not> p_filling st \<longrightarrow>
      events (fill st) = events st @ [FillStart (point_x (pointer st)) (point_y (pointer st))]
      \<and> p_filling (fill st)
      \<and> p_fillStack (fill st) = p_fillStack st
      \<and> timers (fill st) =
          timers st @ [getImageData1 (ctx st) (point_x (pointer st)) (point_y (pointer st))])
   \<and> (p_filling st \<longrightarrow>
      events (fill st) = events st
      \<and> p_filling (fill st)
      \<and> timers (fill st) = timers st
      \<and> p_fillStack (fill st) =
          p_fillStack st @
            [(point_x (pointer st), point_y (pointer st),
              getImageData1 (ctx st) (point_x (pointer st)) (point_y (pointer st)))])
   \<and> (\<forall>st'. p_floodFill px st req = Some st' \<longrightarrow>
          events st' = events st @ [FillEnd] \<and> \<not> p_filling st')"
  using floodFill_events [of px st req]
  by (simp add: fill_def Let_def dispatchEvent_def)

theorem fillstart_brackets_busy_period_witness:
  "\<not> p_filling ex_red
   \<and> events (fill ex_red) = [FillStart 0 0]
   \<and> p_filling (fill ex_red)
   \<and> events (fill (fill ex_red)) = [FillStart 0 0]
   \<and> p_fillStack (fill (fill ex_red)) = [(0, 0, (255, 0, 0, 255))]"
proof -
  have idle: "\<not> p_filling ex_red" and ev: "events ex_red = []"
    and q: "p_fillStack ex_red = []"
    and pt: "point_x (pointer ex_red) = 0" "point_y (pointer ex_red) = 0"
    and c: "getImageData1 (ctx ex_red) 0 0 = (255, 0, 0, 255)"
    by (simp_all add: ex_red_def ex_atrament_def new_atrament_def new_Pointer_def
        getImageData1_def to_long_def pixel_at_def)
  have same: "pointer (fill ex_red) = pointer ex_red" "ctx (fill ex_red) = ctx ex_red"
    by (simp_all add: fill_def Let_def dispatchEvent_def)
  show ?thesis
    using fillstart_brackets_busy_period [of ex_red ex_pixels "(0, 0, (0, 0, 0, 0))"]
      fillstart_brackets_busy_period [of "fill ex_red" ex_pixels "(0, 0, (0, 0, 0, 0))"]
    by (simp add: idle ev q pt c same)
qed

text \<open>
  The normal exit of a pass hands over to the next queued request; the same-colour exit
  above returns with the queue as it was.
\<close>

lemma floodFill_normal_exit_takes_next:
  assumes "\<not> matchColor px (pixels (ctx st))
             (fst (hexToRgb px (color st)), fst (snd (hexToRgb px (color st))),
              snd (snd (hexToRgb px (color st))), 255)
             ((\<lfloor>sy\<rfloor> * canvas_width (ctx st) + \<lfloor>sx\<rfloor>) * 4)"
    and "fill_loop px (pass_locals px st startC) (pixels (ctx st)) [(\<lfloor>sx\<rfloor>, \<lfloor>sy\<rfloor>)] = Some data"
    and "p_fillStack st = nxt # rest"
  shows "p_floodFill px st (sx, sy, startC) =
           p_floodFill px ((putImageData data st)\<lparr>p_fillStack := rest\<rparr>) nxt"
  using assms
  by (subst p_floodFill.simps)
     (simp add: Let_def pass_locals_def putImageData_def ctx_op_def)

lemma pointerMove_fill_mode:
  "p_mode st = ''fill'' \<Longrightarrow>
   pointerMove c ev now st = st\<lparr>pointer := point_set (offsetX ev) (offsetY ev) (pointer st)\<rparr>"
  by (simp add: pointerMove_def Let_def mode_def PathDrawingModes_def DrawingMode_DRAW_def
      DrawingMode_ERASE_def)

lemmas ex_red_defs = ex_red_def ex_atrament_def new_atrament_def new_Pointer_def new_Point_def

text \<open>
  C2 at a failing input. The pixel under the pointer already has the fill colour when
  request A is made; request B is made at the blue pixel while A is pending; the pointer
  is back on the red pixel when A's pass runs. The pass stops as a same-colour no-op
  without looking at the queue: B stays queued, no callback is pending, the filling flag
  is cleared and the blue pixel is never filled.
\<close>

theorem queued_fill_stranded_after_noop:
  "run_timer ex_pixels
     (pointerMove ex_constants (ev_at 0 0) 0
       (fill (pointerMove ex_constants (ev_at 1 0) 0 (fill ex_red)))) =
   Some (ex_red\<lparr>p_filling := False,
                 p_fillStack := [(1, 0, (0, 0, 255, 255))],
                 events := [FillStart 0 0, FillEnd],
                 timers := []\<rparr>)"
proof -
  have a: "fill ex_red =
      ex_red\<lparr>events := [FillStart 0 0], p_filling := True, timers := [(255, 0, 0, 255)]\<rparr>"
    by (simp add: fill_def ex_red_defs
        Let_def dispatchEvent_def getImageData1_def to_long_def pixel_at_def)
  have m1: "pointerMove ex_constants (ev_at 1 0) 0 (fill ex_red) =
      ex_red\<lparr>pointer := point_set 1 0 new_Pointer, events := [FillStart 0 0],
              p_filling := True, timers := [(255, 0, 0, 255)]\<rparr>"
    unfolding a
    by (subst pointerMove_fill_mode) (simp_all add: ev_at_def ex_red_defs)
  have b: "fill (pointerMove ex_constants (ev_at 1 0) 0 (fill ex_red)) =
      ex_red\<lparr>pointer := point_set 1 0 new_Pointer, events := [FillStart 0 0],
              p_filling := True, timers := [(255, 0, 0, 255)],
              p_fillStack := [(1, 0, (0, 0, 255, 255))]\<rparr>"
    unfolding m1
    by (simp add: fill_def ex_red_defs
        Let_def point_set_def getImageData1_def to_long_def pixel_at_def)
  have c: "pointerMove ex_constants (ev_at 0 0) 0
       (fill (pointerMove ex_constants (ev_at 1 0) 0 (fill ex_red))) =
      ex_red\<lparr>events := [FillStart 0 0],
              p_filling := True, timers := [(255, 0, 0, 255)],
              p_fillStack := [(1, 0, (0, 0, 255, 255))]\<rparr>"
    unfolding b
    by (subst pointerMove_fill_mode) (simp_all add: ev_at_def ex_red_defs point_set_def)
  show ?thesis
    unfolding c
    by (simp add: run_timer_def p_floodFill.simps Let_def dispatchEvent_def ex_red_defs
         color_def ex_pixels_def matchColor_def pixel_at_def)
qed

text \<open>The same run, read off field by field: B is still queued and nothing is scheduled.\<close>

theorem queued_fill_stranded_after_noop_witness:
  "map_option p_fillStack
     (run_timer ex_pixels
       (pointerMove ex_constants (ev_at 0 0) 0
         (fill (pointerMove ex_constants (ev_at 1 0) 0 (fill ex_red))))) =
     Some [(1, 0, (0, 0, 255, 255))]
   \<and> map_option timers
     (run_timer ex_pixels
       (pointerMove ex_constants (ev_at 0 0) 0
         (fill (pointerMove ex_constants (ev_at 1 0) 0 (fill ex_red))))) = Some []
   \<and> map_option p_filling
     (run_timer ex_pixels
       (pointerMove ex_constants (ev_at 0 0) 0
         (fill (pointerMove ex_constants (ev_at 1 0) 0 (fill ex_red))))) = Some False
   \<and> map_option (pixels \<circ> ctx)
     (run_timer ex_pixels
       (pointerMove ex_constants (ev_at 0 0) 0
         (fill (pointerMove ex_constants (ev_at 1 0) 0 (fill ex_red))))) =
     Some [(255, 0, 0, 255), (0, 0, 255, 255)]"
  using queued_fill_stranded_after_noop
  by (simp add: ex_red_def ex_atrament_def new_atrament_def)

subsection \<open>A pass on a rectangle\<close>

lemma length_image_of [simp]: "length (image_of W H f) = nat (W * H)"
  by (simp add: image_of_def)

lemma pixel_index:
  fixes x y W H :: int
  assumes "0 \<le> x" "x < W" "0 \<le> y" "y < H"
  shows "0 \<le> y * W + x" "y * W + x < W * H" "(y * W + x) mod W = x" "(y * W + x) div W = y"
proof -
  from assms have W: "0 < W" by linarith
  show "0 \<le> y * W + x" using assms W by simp
  have "(y + 1) * W \<le> H * W" using assms W by (intro mult_right_mono) simp_all
  then show "y * W + x < W * H" using assms by (simp add: algebra_simps)
  show "(y * W + x) mod W = x" using assms by simp
  show "(y * W + x) div W = y" using assms by simp
qed

lemma pixel_at_image_of:
  assumes "0 \<le> x" "x < W" "0 \<le> y" "y < H"
  shows "pixel_at (image_of W H f) ((y * W + x) * 4) = Some (f x y)"
proof -
  note ix = pixel_index [OF assms]
  have lt: "nat (y * W + x) < nat (W * H)" using ix(1,2) by simp
  have "image_of W H f ! nat (y * W + x) = f x y"
    unfolding image_of_def using lt ix by simp
  then show ?thesis using ix(1,2) by (simp add: pixel_at_def)
qed

lemma image_of_update:
  assumes "0 \<le> x" "x < W" "0 \<le> y" "y < H"
  shows "(image_of W H f)[nat (y * W + x) := v] =
         image_of W H (\<lambda>x' y'. if x' = x \<and> y' = y then v else f x' y')"
proof (rule nth_equalityI)
  show "length ((image_of W H f)[nat (y * W + x) := v]) =
        length (image_of W H (\<lambda>x' y'. if x' = x \<and> y' = y then v else f x' y'))"
    by simp
next
  fix i assume "i < length ((image_of W H f)[nat (y * W + x) := v])"
  then have i: "i < nat (W * H)" by simp
  note ix = pixel_index [OF assms]
  have eq: "i = nat (y * W + x) \<longleftrightarrow> int i mod W = x \<and> int i div W = y"
  proof
    assume "i = nat (y * W + x)"
    then have "int i = y * W + x" using ix(1) by simp
    then show "int i mod W = x \<and> int i div W = y" using ix(3,4) by simp
  next
    assume a: "int i mod W = x \<and> int i div W = y"
    have "int i = (int i div W) * W + int i mod W" by simp
    then have "int i = y * W + x" using a by simp
    then show "i = nat (y * W + x)" by simp
  qed
  show "(image_of W H f)[nat (y * W + x) := v] ! i =
        image_of W H (\<lambda>x' y'. if x' = x \<and> y' = y then v else f x' y') ! i"
  proof -
    have L: "(image_of W H f)[nat (y * W + x) := v] ! i =
        (if i = nat (y * W + x) then v else f (int i mod W) (int i div W))"
    proof -
      have "nat (y * W + x) < length (image_of W H f)" using ix(1,2) by simp
      then show ?thesis using i by (simp add: nth_list_update) (simp add: image_of_def)
    qed
    have R: "image_of W H (\<lambda>x' y'. if x' = x \<and> y' = y then v else f x' y') ! i =
        (if int i mod W = x \<and> int i div W = y then v else f (int i mod W) (int i div W))"
      using i by (simp add: image_of_def)
    show ?thesis unfolding L R eq ..
  qed
qed

lemma colorPixel_image_of:
  assumes "0 \<le> x" "x < W" "0 \<le> y" "y < H"
  shows "colorPixel px (image_of W H f) fc sc a ((y * W + x) * 4) =
         image_of W H (\<lambda>x' y'. if x' = x \<and> y' = y then blend px fc sc a (f x y) else f x' y')"
proof -
  have d: "(y * W + x) * 4 div 4 = y * W + x" by simp
  show ?thesis
    unfolding colorPixel_def pixel_at_image_of [OF assms] option.case d
      image_of_update [OF assms] ..
qed

lemma matchColor_image_of:
  assumes "0 \<le> x" "x < W" "0 \<le> y" "y < H"
  shows "matchColor px (image_of W H f) c ((y * W + x) * 4) = near px (f x y) c"
  unfolding matchColor_def pixel_at_image_of [OF assms] option.case ..

lemma match_progress:
  assumes "fill_setting px l R C2"
    and "0 \<le> x'" "x' < canvasWidth l" "0 \<le> y'" "y' < canvasHeight l"
  shows "matchColor px (progress_image px l R C2 cdone x r) (startColor l)
           ((y' * canvasWidth l + x') * 4)
         = (in_rect R x' y' \<and> \<not> cdone x' \<and> \<not> (x' = x \<and> y' < r))"
  unfolding progress_image_def matchColor_image_of [OF assms(2-5)]
  using assms(1) by (simp add: fill_setting_def)

lemma color_progress:
  assumes "fill_setting px l R C2" and "in_rect R x r" and "\<not> cdone x"
  shows "colorPixel px (progress_image px l R C2 cdone x r) (fillColor l) (startColor l) (alpha l)
           ((r * canvasWidth l + x) * 4)
         = progress_image px l R C2 cdone x (r + 1)"
proof -
  from assms(1,2) have b: "0 \<le> x" "x < canvasWidth l" "0 \<le> r" "r < canvasHeight l"
    by (auto simp: fill_setting_def in_rect_def)
  show ?thesis
    unfolding progress_image_def colorPixel_image_of [OF b]
    using assms(2,3)
    by (intro arg_cong [where f = "image_of (canvasWidth l) (canvasHeight l)"])
       (auto simp: fun_eq_iff painted_def)
qed

lemma scan_up_column:
  assumes s: "fill_setting px l R C2"
    and x: "rx0 R \<le> x" "x \<le> rx1 R" and nd: "\<not> cdone x"
    and y: "ry0 R - 1 \<le> y" "y \<le> ry1 R"
  shows "scan_up px l (progress_image px l R C2 cdone x (ry0 R)) y
           ((y * canvasWidth l + x) * 4)
         = (ry0 R - 2, ((ry0 R - 1) * canvasWidth l + x) * 4)"
  using y
proof (induction "nat (y - (ry0 R - 1))" arbitrary: y)
  case 0
  then have y: "y = ry0 R - 1" by simp
  from s x have b: "0 \<le> x" "x < canvasWidth l" "ry0 R - 1 < canvasHeight l"
    by (auto simp: fill_setting_def)
  have ng: "\<not> (y \<ge> 0 \<and> matchColor px (progress_image px l R C2 cdone x (ry0 R)) (startColor l)
              ((y * canvasWidth l + x) * 4))"
  proof (cases "0 \<le> y")
    case True
    then show ?thesis
      using match_progress [OF s b(1,2) True, of cdone x "ry0 R"] b(3) y
      by (simp add: in_rect_def)
  next
    case False
    then show ?thesis by simp
  qed
  show ?case
    by (subst scan_up.simps, simp only: ng if_False) (simp add: y)
next
  case (Suc n)
  then have y: "ry0 R \<le> y" "y \<le> ry1 R" by simp_all
  from s x y have b: "0 \<le> x" "x < canvasWidth l" "0 \<le> y" "y < canvasHeight l"
    by (auto simp: fill_setting_def)
  have m: "matchColor px (progress_image px l R C2 cdone x (ry0 R)) (startColor l)
              ((y * canvasWidth l + x) * 4)"
    using match_progress [OF s b, of cdone x "ry0 R"] x y nd by (simp add: in_rect_def)
  have step: "(y * canvasWidth l + x) * 4 - canvasWidth l * 4 = ((y - 1) * canvasWidth l + x) * 4"
    by (simp add: algebra_simps)
  have "scan_up px l (progress_image px l R C2 cdone x (ry0 R)) (y - 1)
           (((y - 1) * canvasWidth l + x) * 4)
         = (ry0 R - 2, ((ry0 R - 1) * canvasWidth l + x) * 4)"
    using Suc.hyps(2) y by (intro Suc.hyps(1)) simp_all
  then show ?case
    using m b(3) by (subst scan_up.simps) (simp only: step if_True simp_thms)
qed

lemma scan_down_column:
  assumes s: "fill_setting px l R C2"
    and x: "rx0 R \<le> x" "x \<le> rx1 R" and nd: "\<not> cdone x"
    and r: "ry0 R \<le> r" "r \<le> ry1 R + 1"
    and rl: "rl = (ry0 R < r \<and> rx0 R < x \<and> \<not> cdone (x - 1))"
    and rr: "rr = (ry0 R < r \<and> x < rx1 R \<and> \<not> cdone (x + 1))"
  shows "scan_down px l x (progress_image px l R C2 cdone x r) (r - 1)
           ((r * canvasWidth l + x) * 4) rl rr stack
         = (progress_image px l R C2 cdone x (ry1 R + 1),
            (if r = ry0 R
             then (if x < rx1 R \<and> \<not> cdone (x + 1) then [(x + 1, ry0 R)] else [])
                  @ (if rx0 R < x \<and> \<not> cdone (x - 1) then [(x - 1, ry0 R)] else [])
             else []) @ stack)"
  using r rl rr
proof (induction "nat (ry1 R + 1 - r)" arbitrary: r rl rr stack)
  case 0
  then have r: "r = ry1 R + 1" by simp
  from s x have b: "0 \<le> x" "x < canvasWidth l" "0 \<le> r" "ry0 R < r"
    by (auto simp: fill_setting_def r)
  have ng: "\<not> (r - 1 < canvasHeight l - 1
            \<and> matchColor px (progress_image px l R C2 cdone x r) (startColor l)
                 ((r * canvasWidth l + x) * 4))"
  proof (cases "r < canvasHeight l")
    case True
    then show ?thesis
      using match_progress [OF s b(1,2,3) True, of cdone x r] r
      by (simp add: in_rect_def)
  next
    case False
    then show ?thesis by simp
  qed
  show ?case
    using b(4) by (subst scan_down.simps, simp only: ng if_False) (simp add: r)
next
  case (Suc n)
  define p where "p = (r * canvasWidth l + x) * 4"
  define Lft where "Lft \<longleftrightarrow> rx0 R < x \<and> \<not> cdone (x - 1)"
  define Rgt where "Rgt \<longleftrightarrow> x < rx1 R \<and> \<not> cdone (x + 1)"
  from Suc.hyps(2) Suc.prems have r: "ry0 R \<le> r" "r \<le> ry1 R" by simp_all
  from s x r have b: "0 \<le> x" "x < canvasWidth l" "0 \<le> r" "r < canvasHeight l"
    by (auto simp: fill_setting_def)
  from s have g0: "0 \<le> rx0 R" "rx1 R < canvasWidth l" by (auto simp: fill_setting_def)
  have inr: "in_rect R x r" using x r by (simp add: in_rect_def)
  have g: "r - 1 < canvasHeight l - 1" using b by simp
  have m: "matchColor px (progress_image px l R C2 cdone x r) (startColor l) p"
    unfolding p_def
    using match_progress [OF s b, of cdone x r] inr nd by simp
  have c: "colorPixel px (progress_image px l R C2 cdone x r) (fillColor l) (startColor l)
             (alpha l) p = progress_image px l R C2 cdone x (r + 1)"
    unfolding p_def by (rule color_progress [where cdone = cdone, OF s inr nd])
  have ml: "matchColor px (progress_image px l R C2 cdone x (r + 1)) (startColor l)
              (p - 4) = Lft" if "0 < x"
  proof -
    have e: "p - 4 = (r * canvasWidth l + (x - 1)) * 4" by (simp add: p_def algebra_simps)
    have "0 \<le> x - 1" "x - 1 < canvasWidth l" using that b by simp_all
    from match_progress [OF s this b(3,4), of cdone x "r + 1"]
    show ?thesis unfolding e using x r by (auto simp: in_rect_def Lft_def)
  qed
  have mr: "matchColor px (progress_image px l R C2 cdone x (r + 1)) (startColor l)
              (p + 4) = Rgt" if "x < canvasWidth l - 1"
  proof -
    have e: "p + 4 = (r * canvasWidth l + (x + 1)) * 4" by (simp add: p_def algebra_simps)
    have "0 \<le> x + 1" "x + 1 < canvasWidth l" using that b by simp_all
    from match_progress [OF s this b(3,4), of cdone x "r + 1"]
    show ?thesis unfolding e using x r by (auto simp: in_rect_def Rgt_def)
  qed
  have nl: "\<not> Lft" if "\<not> 0 < x" using that g0 by (simp add: Lft_def)
  have nr: "\<not> Rgt" if "\<not> x < canvasWidth l - 1" using that g0 by (simp add: Rgt_def)
  have IH: "scan_down px l x (progress_image px l R C2 cdone x (r + 1)) r
              (p + canvasWidth l * 4) a b stk
            = (progress_image px l R C2 cdone x (ry1 R + 1), stk)"
    if "a = Lft" "b = Rgt" for stk a b
  proof -
    have e: "p + canvasWidth l * 4 = ((r + 1) * canvasWidth l + x) * 4"
      by (simp add: p_def algebra_simps)
    have "scan_down px l x (progress_image px l R C2 cdone x (r + 1)) (r + 1 - 1)
              (((r + 1) * canvasWidth l + x) * 4) Lft Rgt stk
          = (progress_image px l R C2 cdone x (ry1 R + 1),
            (if r + 1 = ry0 R
             then (if x < rx1 R \<and> \<not> cdone (x + 1) then [(x + 1, ry0 R)] else [])
                  @ (if rx0 R < x \<and> \<not> cdone (x - 1) then [(x - 1, ry0 R)] else [])
             else []) @ stk)"
      using Suc.hyps(2) r by (intro Suc.hyps(1)) (simp_all add: Lft_def Rgt_def)
    then show ?thesis using r that unfolding e by simp
  qed
  have rl': "rl = (ry0 R < r \<and> Lft)" and rr': "rr = (ry0 R < r \<and> Rgt)"
    using Suc.prems by (simp_all add: Lft_def Rgt_def)
  have "scan_down px l x (progress_image px l R C2 cdone x r) (r - 1) p rl rr stack
         = (progress_image px l R C2 cdone x (ry1 R + 1),
            (if r = ry0 R
             then (if Rgt then [(x + 1, ry0 R)] else []) @ (if Lft then [(x - 1, ry0 R)] else [])
             else []) @ stack)"
    apply (subst scan_down.simps)
    apply (cases "0 < x"; cases "x < canvasWidth l - 1"; cases Lft; cases Rgt;
        cases "ry0 R < r")
    using r(1)
    apply (simp_all add: g m c ml mr nl nr IH rl' rr' Let_def)
    done
  then show ?case by (simp add: p_def Lft_def Rgt_def)
qed

lemma stage_start: "progress_image px l R C2 cdone x (ry0 R) = stage px l R C2 cdone"
  unfolding stage_def progress_image_def
  by (intro arg_cong [where f = "image_of (canvasWidth l) (canvasHeight l)"])
     (auto simp: fun_eq_iff in_rect_def)

lemma stage_end:
  "progress_image px l R C2 cdone x (ry1 R + 1) = stage px l R C2 (\<lambda>x'. cdone x' \<or> x' = x)"
  unfolding stage_def progress_image_def
  by (intro arg_cong [where f = "image_of (canvasWidth l) (canvasHeight l)"])
     (auto simp: fun_eq_iff in_rect_def)

lemma fill_loop_column:
  assumes s: "fill_setting px l R C2"
    and x: "rx0 R \<le> x" "x \<le> rx1 R" and nd: "\<not> cdone x"
    and y: "ry0 R \<le> y" "y \<le> ry1 R"
  shows "fill_loop px l (stage px l R C2 cdone) ((x, y) # rest) =
         fill_loop px l (stage px l R C2 (\<lambda>x'. cdone x' \<or> x' = x))
           ((if x < rx1 R \<and> \<not> cdone (x + 1) then [(x + 1, ry0 R)] else [])
            @ (if rx0 R < x \<and> \<not> cdone (x - 1) then [(x - 1, ry0 R)] else [])
            @ rest)"
proof -
  have up: "scan_up px l (stage px l R C2 cdone) y ((y * canvasWidth l + x) * 4)
         = (ry0 R - 2, ((ry0 R - 1) * canvasWidth l + x) * 4)"
    using scan_up_column [where cdone = cdone, OF s x nd, of y] y
    by (simp add: stage_start)
  have e: "((ry0 R - 1) * canvasWidth l + x) * 4 + canvasWidth l * 4
           = (ry0 R * canvasWidth l + x) * 4"
    by (simp add: algebra_simps)
  have dn: "scan_down px l x (stage px l R C2 cdone) (ry0 R - 2 + 1)
           (((ry0 R - 1) * canvasWidth l + x) * 4 + canvasWidth l * 4) False False rest
         = (stage px l R C2 (\<lambda>x'. cdone x' \<or> x' = x),
            (if x < rx1 R \<and> \<not> cdone (x + 1) then [(x + 1, ry0 R)] else [])
            @ (if rx0 R < x \<and> \<not> cdone (x - 1) then [(x - 1, ry0 R)] else [])
            @ rest)"
    unfolding e
    using scan_down_column [where cdone = cdone and r = "ry0 R" and stack = rest
        and rl = False and rr = False, OF s x nd] s
    by (simp add: stage_start stage_end fill_setting_def)
  show ?thesis
    by (subst fill_loop.simps) (simp only: list.sel list.simps if_False Let_def fst_conv
        snd_conv up dn prod.case)
qed

lemma fill_loop_sweep:
  assumes s: "fill_setting px l R C2"
    and ab: "rx0 R \<le> a" "a \<le> b" "b \<le> rx1 R"
  shows "fill_loop px l (stage px l R C2 (cols a b))
           ((if b < rx1 R then [(b + 1, ry0 R)] else [])
            @ (if rx0 R < a then [(a - 1, ry0 R)] else []))
         = Some (stage px l R C2 (cols (rx0 R) (rx1 R)))"
  using ab
proof (induction "nat ((rx1 R - b) + (a - rx0 R))" arbitrary: a b)
  case 0
  then have "a = rx0 R" "b = rx1 R" by simp_all
  then show ?case by (subst fill_loop.simps) simp
next
  case (Suc n)
  from s have ys: "ry0 R \<le> ry0 R" "ry0 R \<le> ry1 R" by (simp_all add: fill_setting_def)
  show ?case
  proof (cases "b < rx1 R")
    case True
    have nd: "\<not> cols a b (b + 1)" by (simp add: cols_def)
    have x: "rx0 R \<le> b + 1" "b + 1 \<le> rx1 R" using Suc.prems True by simp_all
    have st: "(\<lambda>x'. cols a b x' \<or> x' = b + 1) = cols a (b + 1)"
      using Suc.prems by (auto simp: fun_eq_iff cols_def)
    have IH: "fill_loop px l (stage px l R C2 (cols a (b + 1)))
           ((if b + 1 < rx1 R then [(b + 1 + 1, ry0 R)] else [])
            @ (if rx0 R < a then [(a - 1, ry0 R)] else []))
         = Some (stage px l R C2 (cols (rx0 R) (rx1 R)))"
      using Suc.hyps(2) Suc.prems True by (intro Suc.hyps(1)) simp_all
    have c: "\<not> cols a b (2 + b)" "cols a b b"
      using Suc.prems by (simp_all add: cols_def)
    have "fill_loop px l (stage px l R C2 (cols a b))
           ((if b < rx1 R then [(b + 1, ry0 R)] else [])
            @ (if rx0 R < a then [(a - 1, ry0 R)] else []))
        = fill_loop px l (stage px l R C2 (cols a b))
           ((b + 1, ry0 R) # (if rx0 R < a then [(a - 1, ry0 R)] else []))"
      using True by simp
    also have "\<dots> = fill_loop px l (stage px l R C2 (\<lambda>x'. cols a b x' \<or> x' = b + 1))
           ((if b + 1 < rx1 R \<and> \<not> cols a b (b + 1 + 1) then [(b + 1 + 1, ry0 R)] else [])
            @ (if rx0 R < b + 1 \<and> \<not> cols a b (b + 1 - 1) then [(b + 1 - 1, ry0 R)] else [])
            @ (if rx0 R < a then [(a - 1, ry0 R)] else []))"
      by (rule fill_loop_column [where cdone = "cols a b", OF s x nd ys])
    also have "\<dots> = fill_loop px l (stage px l R C2 (cols a (b + 1)))
           ((if b + 1 < rx1 R then [(b + 1 + 1, ry0 R)] else [])
            @ (if rx0 R < a then [(a - 1, ry0 R)] else []))"
      unfolding st by (simp add: c)
    also note IH
    finally show ?thesis .
  next
    case False
    with Suc.prems have b: "b = rx1 R" by simp
    with Suc.hyps(2) Suc.prems have a: "rx0 R < a" by simp
    have nd: "\<not> cols a b (a - 1)" by (simp add: cols_def)
    have x: "rx0 R \<le> a - 1" "a - 1 \<le> rx1 R" using Suc.prems a by simp_all
    have st: "(\<lambda>x'. cols a b x' \<or> x' = a - 1) = cols (a - 1) b"
      using Suc.prems by (auto simp: fun_eq_iff cols_def)
    have IH: "fill_loop px l (stage px l R C2 (cols (a - 1) b))
           ((if b < rx1 R then [(b + 1, ry0 R)] else [])
            @ (if rx0 R < a - 1 then [(a - 1 - 1, ry0 R)] else []))
         = Some (stage px l R C2 (cols (rx0 R) (rx1 R)))"
      using Suc.hyps(2) Suc.prems a by (intro Suc.hyps(1)) simp_all
    have c: "cols a b a" "\<not> cols a b (a - 2)"
      using Suc.prems by (simp_all add: cols_def)
    have "fill_loop px l (stage px l R C2 (cols a b))
           ((if b < rx1 R then [(b + 1, ry0 R)] else [])
            @ (if rx0 R < a then [(a - 1, ry0 R)] else []))
        = fill_loop px l (stage px l R C2 (cols a b)) ((a - 1, ry0 R) # [])"
      using a False by simp
    also have "\<dots> = fill_loop px l (stage px l R C2 (\<lambda>x'. cols a b x' \<or> x' = a - 1))
           ((if a - 1 < rx1 R \<and> \<not> cols a b (a - 1 + 1) then [(a - 1 + 1, ry0 R)] else [])
            @ (if rx0 R < a - 1 \<and> \<not> cols a b (a - 1 - 1) then [(a - 1 - 1, ry0 R)] else [])
            @ [])"
      by (rule fill_loop_column [where cdone = "cols a b", OF s x nd ys])
    also have "\<dots> = fill_loop px l (stage px l R C2 (cols (a - 1) b))
           ((if b < rx1 R then [(b + 1, ry0 R)] else [])
            @ (if rx0 R < a - 1 then [(a - 1 - 1, ry0 R)] else []))"
      unfolding st using False by (simp add: c)
    also note IH
    finally show ?thesis .
  qed
qed

lemma stage_none:
  "stage px l R C2 (\<lambda>x. False) = rect_img (canvasWidth l) (canvasHeight l) R (startColor l) C2"
  unfolding stage_def progress_image_def rect_img_def
  by (intro arg_cong [where f = "image_of (canvasWidth l) (canvasHeight l)"])
     (auto simp: fun_eq_iff in_rect_def)

lemma stage_all:
  "stage px l R C2 (cols (rx0 R) (rx1 R)) =
   rect_img (canvasWidth l) (canvasHeight l) R (painted px l) C2"
  unfolding stage_def progress_image_def rect_img_def
  by (intro arg_cong [where f = "image_of (canvasWidth l) (canvasHeight l)"])
     (auto simp: fun_eq_iff in_rect_def cols_def)

lemma fill_loop_rectangle:
  assumes s: "fill_setting px l R C2" and seed: "in_rect R sx sy"
  shows "fill_loop px l (rect_img (canvasWidth l) (canvasHeight l) R (startColor l) C2)
           [(sx, sy)]
         = Some (rect_img (canvasWidth l) (canvasHeight l) R (painted px l) C2)"
proof -
  from seed have x: "rx0 R \<le> sx" "sx \<le> rx1 R" and y: "ry0 R \<le> sy" "sy \<le> ry1 R"
    by (simp_all add: in_rect_def)
  have st: "(\<lambda>x'. False \<or> x' = sx) = cols sx sx" by (auto simp: fun_eq_iff cols_def)
  have "fill_loop px l (rect_img (canvasWidth l) (canvasHeight l) R (startColor l) C2)
           [(sx, sy)]
        = fill_loop px l (stage px l R C2 (\<lambda>x. False)) ((sx, sy) # [])"
    by (simp only: stage_none)
  also have "\<dots> = fill_loop px l (stage px l R C2 (\<lambda>x'. False \<or> x' = sx))
           ((if sx < rx1 R \<and> \<not> False then [(sx + 1, ry0 R)] else [])
            @ (if rx0 R < sx \<and> \<not> False then [(sx - 1, ry0 R)] else [])
            @ [])"
    by (rule fill_loop_column [where cdone = "\<lambda>x. False", OF s x _ y]) simp
  also have "\<dots> = fill_loop px l (stage px l R C2 (cols sx sx))
           ((if sx < rx1 R then [(sx + 1, ry0 R)] else [])
            @ (if rx0 R < sx then [(sx - 1, ry0 R)] else []))"
    unfolding st by simp
  also have "\<dots> = Some (stage px l R C2 (cols (rx0 R) (rx1 R)))"
    by (rule fill_loop_sweep [OF s x(1) _ x(2)]) simp
  finally show ?thesis by (simp only: stage_all)
qed

lemma region4_ok: "(x, y) \<in> region4 ok sx sy \<Longrightarrow> ok x y"
  by (induction rule: region4.induct) auto

lemma region4_row:
  assumes seed: "in_rect R sx sy" and x: "rx0 R \<le> x" "x \<le> rx1 R"
  shows "(x, sy) \<in> region4 (in_rect R) sx sy"
proof (cases "sx \<le> x")
  case True
  have "sx + int k \<le> rx1 R \<Longrightarrow> (sx + int k, sy) \<in> region4 (in_rect R) sx sy" for k
  proof (induction k)
    case 0
    then show ?case using seed by (simp add: region4.seed)
  next
    case (Suc k)
    then have "(sx + int k, sy) \<in> region4 (in_rect R) sx sy" by simp
    moreover have "in_rect R (sx + int k + 1) sy"
      using Suc.prems seed by (simp add: in_rect_def)
    ultimately have "(sx + int k + 1, sy) \<in> region4 (in_rect R) sx sy"
      by (rule region4.right)
    then show ?case by (simp add: algebra_simps)
  qed
  from this [of "nat (x - sx)"] True x show ?thesis by simp
next
  case False
  have "rx0 R \<le> sx - int k \<Longrightarrow> (sx - int k, sy) \<in> region4 (in_rect R) sx sy" for k
  proof (induction k)
    case 0
    then show ?case using seed by (simp add: region4.seed)
  next
    case (Suc k)
    then have "(sx - int k, sy) \<in> region4 (in_rect R) sx sy" by simp
    moreover have "in_rect R (sx - int k - 1) sy"
      using Suc.prems seed by (simp add: in_rect_def)
    ultimately have "(sx - int k - 1, sy) \<in> region4 (in_rect R) sx sy"
      by (rule region4.left)
    then show ?case by (simp add: algebra_simps)
  qed
  from this [of "nat (sx - x)"] False x show ?thesis by simp
qed

lemma region4_column:
  assumes seed: "in_rect R sx sy" and base: "(x, sy) \<in> region4 (in_rect R) sx sy"
    and x: "rx0 R \<le> x" "x \<le> rx1 R" and y: "ry0 R \<le> y" "y \<le> ry1 R"
  shows "(x, y) \<in> region4 (in_rect R) sx sy"
proof (cases "sy \<le> y")
  case True
  have "sy + int k \<le> ry1 R \<Longrightarrow> (x, sy + int k) \<in> region4 (in_rect R) sx sy" for k
  proof (induction k)
    case 0
    then show ?case using base by simp
  next
    case (Suc k)
    then have "(x, sy + int k) \<in> region4 (in_rect R) sx sy" by simp
    moreover have "in_rect R x (sy + int k + 1)"
      using Suc.prems seed x by (simp add: in_rect_def)
    ultimately have "(x, sy + int k + 1) \<in> region4 (in_rect R) sx sy"
      by (rule region4.down)
    then show ?case by (simp add: algebra_simps)
  qed
  from this [of "nat (y - sy)"] True y show ?thesis by simp
next
  case False
  have "ry0 R \<le> sy - int k \<Longrightarrow> (x, sy - int k) \<in> region4 (in_rect R) sx sy" for k
  proof (induction k)
    case 0
    then show ?case using base by simp
  next
    case (Suc k)
    then have "(x, sy - int k) \<in> region4 (in_rect R) sx sy" by simp
    moreover have "in_rect R x (sy - int k - 1)"
      using Suc.prems seed x by (simp add: in_rect_def)
    ultimately have "(x, sy - int k - 1) \<in> region4 (in_rect R) sx sy"
      by (rule region4.up)
    then show ?case by (simp add: algebra_simps)
  qed
  from this [of "nat (sy - y)"] False y show ?thesis by simp
qed

lemma region4_rect:
  assumes seed: "in_rect R sx sy"
  shows "region4 (in_rect R) sx sy = {(x, y). in_rect R x y}"
proof (intro set_eqI iffI)
  fix p assume "p \<in> region4 (in_rect R) sx sy"
  then show "p \<in> {(x, y). in_rect R x y}"
    by (cases p) (auto dest: region4_ok)
next
  fix p assume "p \<in> {(x, y). in_rect R x y}"
  then obtain x y where p: "p = (x, y)" and r: "in_rect R x y" by auto
  from r have x: "rx0 R \<le> x" "x \<le> rx1 R" and y: "ry0 R \<le> y" "y \<le> ry1 R"
    by (simp_all add: in_rect_def)
  show "p \<in> region4 (in_rect R) sx sy"
    unfolding p by (rule region4_column [OF seed region4_row [OF seed x] x y])
qed

lemma floodFill_single_pass:
  assumes "\<not> matchColor px (pixels (ctx st))
             (fst (hexToRgb px (color st)), fst (snd (hexToRgb px (color st))),
              snd (snd (hexToRgb px (color st))), 255)
             ((\<lfloor>sy\<rfloor> * canvas_width (ctx st) + \<lfloor>sx\<rfloor>) * 4)"
    and "fill_loop px (pass_locals px st startC) (pixels (ctx st)) [(\<lfloor>sx\<rfloor>, \<lfloor>sy\<rfloor>)] = Some data"
    and "p_fillStack st = []"
  shows "p_floodFill px st (sx, sy, startC) =
           Some (dispatchEvent FillEnd ((putImageData data st)\<lparr>p_filling := False\<rparr>))"
  using assms
  by (subst p_floodFill.simps)
     (simp add: Let_def pass_locals_def putImageData_def ctx_op_def)

lemma matches_at_rect:
  assumes "0 \<le> rx0 R" "rx1 R < W" "0 \<le> ry0 R" "ry1 R < H"
    and "near px C1 C1" "\<not> near px C2 C1"
  shows "matches_at px W H (rect_img W H R C1 C2) C1 = in_rect R"
proof (intro ext)
  fix x y
  show "matches_at px W H (rect_img W H R C1 C2) C1 x y = in_rect R x y"
  proof (cases "0 \<le> x \<and> x < W \<and> 0 \<le> y \<and> y < H")
    case True
    then have b: "0 \<le> x" "x < W" "0 \<le> y" "y < H" by simp_all
    show ?thesis
      unfolding matches_at_def rect_img_def matchColor_image_of [OF b]
      using b assms(5,6) by simp
  next
    case False
    then have "\<not> in_rect R x y" using assms(1-4) by (auto simp: in_rect_def)
    with False show ?thesis by (auto simp: matches_at_def)
  qed
qed

lemma mutated_rect:
  assumes "0 \<le> rx0 R" "rx1 R < W" "0 \<le> ry0 R" "ry1 R < H" and "P \<noteq> C1"
  shows "mutated W H (rect_img W H R C1 C2) (rect_img W H R P C2) = {(x, y). in_rect R x y}"
proof (intro set_eqI iffI)
  fix p assume "p \<in> mutated W H (rect_img W H R C1 C2) (rect_img W H R P C2)"
  then obtain x y where p: "p = (x, y)" and b: "0 \<le> x" "x < W" "0 \<le> y" "y < H"
    and ne: "pixel_at (rect_img W H R P C2) ((y * W + x) * 4)
             \<noteq> pixel_at (rect_img W H R C1 C2) ((y * W + x) * 4)"
    by (auto simp: mutated_def)
  from ne have "in_rect R x y"
    unfolding rect_img_def pixel_at_image_of [OF b] by (simp split: if_splits)
  then show "p \<in> {(x, y). in_rect R x y}" by (simp add: p)
next
  fix p assume "p \<in> {(x, y). in_rect R x y}"
  then obtain x y where p: "p = (x, y)" and r: "in_rect R x y" by auto
  from r assms(1-4) have b: "0 \<le> x" "x < W" "0 \<le> y" "y < H"
    by (auto simp: in_rect_def)
  have "pixel_at (rect_img W H R P C2) ((y * W + x) * 4)
             \<noteq> pixel_at (rect_img W H R C1 C2) ((y * W + x) * 4)"
    unfolding rect_img_def pixel_at_image_of [OF b] using r assms(5) by simp
  then show "p \<in> mutated W H (rect_img W H R C1 C2) (rect_img W H R P C2)"
    using b by (simp add: mutated_def p)
qed

text \<open>
  C1. On a buffer that holds one axis-aligned rectangle of colour \<open>C1\<close> on a background
  \<open>C2\<close>, where \<open>C1\<close> matches itself and neither \<open>C2\<close>, nor the fill colour at full
  opacity, nor a coloured pixel matches \<open>C1\<close>, a pass seeded inside the rectangle returns
  and commits the buffer in which exactly the pixels of the rectangle are coloured, its
  first and last rows included. The pixels that changed are the 4-connected closure of
  the seed under the matcher against \<open>C1\<close>, which is the rectangle.
\<close>

theorem floodFill_fills_rectangle:
  fixes st :: atrament and px :: pixels_js and R :: rect and C1 C2 :: rgba and sx sy :: real
  assumes canvas: "0 \<le> rx0 R" "rx0 R \<le> rx1 R" "rx1 R < canvas_width (ctx st)"
      "0 \<le> ry0 R" "ry0 R \<le> ry1 R" "ry1 R < canvas_height (ctx st)"
    and buffer: "pixels (ctx st) =
        rect_img (canvas_width (ctx st)) (canvas_height (ctx st)) R C1 C2"
    and seed: "in_rect R \<lfloor>sx\<rfloor> \<lfloor>sy\<rfloor>"
    and tol: "near px C1 C1" "\<not> near px C2 C1"
      "\<not> near px (painted px (pass_locals px st C1)) C1"
    and fillc: "\<not> near px C1
        (fst (hexToRgb px (color st)), fst (snd (hexToRgb px (color st))),
         snd (snd (hexToRgb px (color st))), 255)"
    and idle: "p_fillStack st = []"
  shows "p_floodFill px st (sx, sy, C1) =
           Some (dispatchEvent FillEnd
             ((putImageData
                 (rect_img (canvas_width (ctx st)) (canvas_height (ctx st)) R
                    (painted px (pass_locals px st C1)) C2) st)
              \<lparr>p_filling := False\<rparr>))
     \<and> mutated (canvas_width (ctx st)) (canvas_height (ctx st)) (pixels (ctx st))
         (rect_img (canvas_width (ctx st)) (canvas_height (ctx st)) R
            (painted px (pass_locals px st C1)) C2)
       = region4
           (matches_at px (canvas_width (ctx st)) (canvas_height (ctx st)) (pixels (ctx st)) C1)
           \<lfloor>sx\<rfloor> \<lfloor>sy\<rfloor>
     \<and> mutated (canvas_width (ctx st)) (canvas_height (ctx st)) (pixels (ctx st))
         (rect_img (canvas_width (ctx st)) (canvas_height (ctx st)) R
            (painted px (pass_locals px st C1)) C2)
       = {(x, y). in_rect R x y}"
proof -
  let ?l = "pass_locals px st C1"
  let ?W = "canvas_width (ctx st)" and ?H = "canvas_height (ctx st)"
  have l: "canvasWidth ?l = ?W" "canvasHeight ?l = ?H" "startColor ?l = C1"
    by (simp_all add: pass_locals_def)
  have s: "fill_setting px ?l R C2"
    using canvas tol by (simp add: fill_setting_def l)
  from seed have sr: "rx0 R \<le> \<lfloor>sx\<rfloor>" "\<lfloor>sx\<rfloor> \<le> rx1 R" "ry0 R \<le> \<lfloor>sy\<rfloor>" "\<lfloor>sy\<rfloor> \<le> ry1 R"
    unfolding in_rect_def by blast+
  have b: "0 \<le> \<lfloor>sx\<rfloor>" "\<lfloor>sx\<rfloor> < ?W" "0 \<le> \<lfloor>sy\<rfloor>" "\<lfloor>sy\<rfloor> < ?H"
    using sr canvas by linarith+
  have na: "\<not> matchColor px (pixels (ctx st))
             (fst (hexToRgb px (color st)), fst (snd (hexToRgb px (color st))),
              snd (snd (hexToRgb px (color st))), 255)
             ((\<lfloor>sy\<rfloor> * ?W + \<lfloor>sx\<rfloor>) * 4)"
    unfolding buffer rect_img_def matchColor_image_of [OF b]
    using seed fillc by simp
  have loop: "fill_loop px ?l (pixels (ctx st)) [(\<lfloor>sx\<rfloor>, \<lfloor>sy\<rfloor>)]
      = Some (rect_img ?W ?H R (painted px ?l) C2)"
    using fill_loop_rectangle [OF s seed] by (simp add: l buffer)
  have ne: "painted px ?l \<noteq> C1" using tol(1,3) by auto
  have m: "mutated ?W ?H (pixels (ctx st)) (rect_img ?W ?H R (painted px ?l) C2)
      = {(x, y). in_rect R x y}"
    unfolding buffer by (rule mutated_rect [OF canvas(1,3,4,6) ne])
  have r: "region4 (matches_at px ?W ?H (pixels (ctx st)) C1) \<lfloor>sx\<rfloor> \<lfloor>sy\<rfloor>
      = {(x, y). in_rect R x y}"
    unfolding buffer matches_at_rect [OF canvas(1,3,4,6) tol(1,2)]
    by (rule region4_rect [OF seed])
  show ?thesis
    using floodFill_single_pass [OF na loop idle] m r by simp
qed

lemma ex_square_simps:
  "canvas_width (ctx ex_square) = 3" "canvas_height (ctx ex_square) = 3"
  "pixels (ctx ex_square) = rect_img 3 3 ex_rect (0, 0, 255, 255) (255, 255, 255, 255)"
  "p_fillStack ex_square = []"
  "color ex_square = ''#ff0000''"
  "globalAlpha (ctx ex_square) = 1"
  by (simp_all add: ex_square_def new_atrament_def color_def)

lemma ex_painted: "painted ex_pixels (pass_locals ex_pixels ex_square c) = (255, 0, 0, 255)"
  by (simp add: painted_def pass_locals_def ex_square_simps ex_pixels_def)

lemma ex_rect_img:
  "rect_img 3 3 ex_rect c d = [d, d, d, d, c, c, d, c, c]"
proof -
  have "[0..<9] = [0, 1, 2, 3, 4, 5, 6, 7, 8::nat]"
    by (simp add: upt_rec)
  then show ?thesis
    by (simp add: rect_img_def image_of_def in_rect_def ex_rect_def)
qed

theorem floodFill_fills_rectangle_witness:
  "in_rect ex_rect \<lfloor>3 / 2 :: real\<rfloor> \<lfloor>2 :: real\<rfloor>
   \<and> pixels (ctx ex_square) =
       rect_img (canvas_width (ctx ex_square)) (canvas_height (ctx ex_square)) ex_rect
         (0, 0, 255, 255) (255, 255, 255, 255)
   \<and> map_option (pixels \<circ> ctx)
         (p_floodFill ex_pixels ex_square (3 / 2, 2, (0, 0, 255, 255))) =
       Some [(255, 255, 255, 255), (255, 255, 255, 255), (255, 255, 255, 255),
             (255, 255, 255, 255), (255, 0, 0, 255), (255, 0, 0, 255),
             (255, 255, 255, 255), (255, 0, 0, 255), (255, 0, 0, 255)]
   \<and> mutated 3 3 (pixels (ctx ex_square))
         [(255, 255, 255, 255), (255, 255, 255, 255), (255, 255, 255, 255),
          (255, 255, 255, 255), (255, 0, 0, 255), (255, 0, 0, 255),
          (255, 255, 255, 255), (255, 0, 0, 255), (255, 0, 0, 255)]
       = region4 (matches_at ex_pixels 3 3 (pixels (ctx ex_square)) (0, 0, 255, 255)) 1 2"
proof -
  have canvas: "0 \<le> rx0 ex_rect" "rx0 ex_rect \<le> rx1 ex_rect"
      "rx1 ex_rect < canvas_width (ctx ex_square)"
      "0 \<le> ry0 ex_rect" "ry0 ex_rect \<le> ry1 ex_rect"
      "ry1 ex_rect < canvas_height (ctx ex_square)"
    by (simp_all add: ex_rect_def ex_square_simps)
  have buffer: "pixels (ctx ex_square) =
      rect_img (canvas_width (ctx ex_square)) (canvas_height (ctx ex_square)) ex_rect
        (0, 0, 255, 255) (255, 255, 255, 255)"
    by (simp add: ex_square_simps)
  have seed: "in_rect ex_rect \<lfloor>3 / 2 :: real\<rfloor> \<lfloor>2 :: real\<rfloor>"
    by (simp add: in_rect_def ex_rect_def)
  have tol: "near ex_pixels (0, 0, 255, 255) (0, 0, 255, 255)"
      "\<not> near ex_pixels (255, 255, 255, 255) (0, 0, 255, 255)"
      "\<not> near ex_pixels (painted ex_pixels (pass_locals ex_pixels ex_square (0, 0, 255, 255)))
          (0, 0, 255, 255)"
    unfolding ex_painted by (simp_all add: ex_pixels_def)
  have fillc: "\<not> near ex_pixels (0, 0, 255, 255)
        (fst (hexToRgb ex_pixels (color ex_square)),
         fst (snd (hexToRgb ex_pixels (color ex_square))),
         snd (snd (hexToRgb ex_pixels (color ex_square))), 255)"
    by (simp add: ex_pixels_def ex_square_simps)
  have idle: "p_fillStack ex_square = []" by (simp add: ex_square_simps)
  have fl: "\<lfloor>3 / 2 :: real\<rfloor> = 1" "\<lfloor>2 :: real\<rfloor> = 2" by simp_all
  show ?thesis
    using floodFill_fills_rectangle [OF canvas buffer seed tol fillc idle] seed buffer
    unfolding ex_painted
    by (simp add: ex_square_simps ex_rect_img putImageData_def ctx_op_def dispatchEvent_def)
qed

end
